theory Spec2Isabelle
  imports Main "HOL-Library.Word" "HOL-Library.Sublist"
begin

section \<open>The platform library seen from ctrq.hpp\<close>

text \<open>
  ctrq.hpp is a header-only wrapper around the HTTP service of the console's system
  library (included as 3ds.h). The wrapper never looks inside a request context: it
  calls the library, step by step, and keeps what the calls return. The model makes
  the library explicit: every library call is a value of \<open>httpc_call\<close>, the calls made
  so far are a list (the trace, oldest call first), and the library's answer to a call
  is a function of the trace before the call and of the call itself. The answer is
  arbitrary, so every theorem below holds for every behaviour of the library,
  failures at any step included.
\<close>

type_synonym u8 = "8 word"
type_synonym u32 = "32 word"

text \<open>\<open>Result\<close> is the library's signed 32-bit result code.\<close>

type_synonym Result = "32 word"

datatype httpcContext = HttpcContext (servhandle: u32) (httphandle: u32)

datatype HTTPC_RequestMethod =
    HTTPC_METHOD_GET
  | HTTPC_METHOD_POST
  | HTTPC_METHOD_HEAD
  | HTTPC_METHOD_PUT
  | HTTPC_METHOD_DELETE

datatype HTTPC_KeepAlive = HTTPC_KEEPALIVE_DISABLED | HTTPC_KEEPALIVE_ENABLED

datatype SSLC_Opt = SSLCOPT_Default | SSLCOPT_DisableVerify

text \<open>
  One constructor per library function that ctrq.hpp calls, with the arguments the
  wrapper passes. Pointer arguments are passed as the value they point to: the
  context as its current contents, C strings as the characters before the first NUL,
  a raw body as its bytes together with the length argument, and a receive buffer as
  its size.
\<close>

datatype httpc_call =
    httpcOpenContext httpcContext HTTPC_RequestMethod string int
  | httpcSetSSLOpt httpcContext SSLC_Opt
  | httpcAddRequestHeaderField httpcContext string string
  | httpcSetKeepAlive httpcContext HTTPC_KeepAlive
  | httpcBeginRequest httpcContext
  | httpcGetResponseStatusCode httpcContext
  | httpcAddPostDataRaw httpcContext "u8 list" u32
  | httpcAddPostDataAscii httpcContext string string
  | httpcDownloadData httpcContext nat
  | httpcGetResponseHeader httpcContext string nat
  | httpcCloseContext httpcContext

text \<open>
  What a call leaves behind: its result code and its out-parameters. \<open>out_context\<close> is
  what \<open>httpcOpenContext\<close> stores through its context pointer and \<open>out_status\<close> what
  \<open>httpcGetResponseStatusCode\<close> stores through its status pointer (\<open>None\<close>: the call
  left the target untouched). \<open>out_data\<close> is the contents of the download buffer from
  its start up to the reported \<open>downloaded_size\<close>, as \<open>httpcDownloadData\<close> leaves
  them. \<open>out_text\<close> is the contents of the character buffer that
  \<open>httpcGetResponseHeader\<close> was given (the buffer starts zeroed, so an untouched
  buffer is the empty text).
\<close>

record httpc_reply =
  rc :: Result
  out_context :: "httpcContext option"
  out_status :: "u32 option"
  out_data :: "u8 list"
  out_text :: string

text \<open>
  The parts of 3ds.h the wrapper depends on and that are not in the repository are
  parameters of the model: the macro \<open>R_FAILED\<close> that classifies a result code, the
  constant \<open>HTTPC_RESULTCODE_DOWNLOADPENDING\<close>, and the behaviour \<open>httpc\<close> of the library
  calls.
\<close>

record platform =
  R_FAILED :: "Result \<Rightarrow> bool"
  HTTPC_RESULTCODE_DOWNLOADPENDING :: Result
  httpc :: "httpc_call list \<Rightarrow> httpc_call \<Rightarrow> httpc_reply"

section \<open>Build-time constants\<close>

definition CTRQ_USER_AGENT :: string where
  "CTRQ_USER_AGENT = ''ctrq/0.0.1''"

definition CTRQ_HEADER_BUFFER_SIZE :: nat where
  "CTRQ_HEADER_BUFFER_SIZE = 4 * 1024"

definition CTRQ_DOWNLOAD_BUFFER_SIZE :: nat where
  "CTRQ_DOWNLOAD_BUFFER_SIZE = 0x1000"

section \<open>Strings and bytes\<close>

text \<open>\<open>std::string::c_str()\<close> read as a C string: the characters before the first NUL.\<close>

definition c_str :: "string \<Rightarrow> string" where
  "c_str s = takeWhile (\<lambda>c. c \<noteq> CHR 0x00) s"

text \<open>\<open>reinterpret_cast\<close> between \<open>u8\<close> and \<open>char\<close>: the same eight bits.\<close>

definition u8_to_char :: "u8 \<Rightarrow> char" where
  "u8_to_char b = char_of (unat b)"

definition char_to_u8 :: "char \<Rightarrow> u8" where
  "char_to_u8 c = of_char c"

section \<open>The response class\<close>

datatype httpc_failure =
    NONE
  | OPEN_CONTEXT
  | DISABLE_SSL_VERIFY
  | SET_KEEP_ALIVE
  | SET_KEEP_ALIVE_HEADER
  | SET_USER_AGENT
  | SET_HEADER
  | BEGIN_REQUEST
  | GET_RESPONSE_STATUS_CODE
  | ADD_RAW_POST_DATA
  | ADD_ASCII_POST_PARAM

record response =
  http_context_closed :: bool
  body :: "u8 list"
  body_populated :: bool
  body_string :: string
  body_string_populated :: bool
  status :: u32
  result :: Result
  failure :: httpc_failure
  context' :: httpcContext

text \<open>
  \<open>response res;\<close> runs the default member initialisers. The member \<open>context\<close> has
  none, so its contents are whatever the storage held: the parameter \<open>c0\<close>.
\<close>

definition new_response :: "httpcContext \<Rightarrow> response" where
  "new_response c0 =
     \<lparr> http_context_closed = False,
       body = [], body_populated = False,
       body_string = [], body_string_populated = False,
       status = 0, result = 0, failure = NONE,
       context' = c0 \<rparr>"

text \<open>
  A member function runs on the trace of library calls so far and on the object, and
  returns both updated.
\<close>

type_synonym state = "httpc_call list \<times> response"

definition has_failed :: "platform \<Rightarrow> response \<Rightarrow> bool" where
  "has_failed P res = R_FAILED P (result res)"

text \<open>
  \<open>get_header\<close> declares a local \<open>result\<close>, so the member of that name is not written.
  The returned string is built from the buffer as a C string.
\<close>

definition get_header :: "platform \<Rightarrow> string \<Rightarrow> state \<Rightarrow> string \<times> state" where
  "get_header P header s =
     (case s of (tr, res) \<Rightarrow>
        if http_context_closed res then ([], tr, res)
        else
          (let c = httpcGetResponseHeader (context' res) (c_str header) CTRQ_HEADER_BUFFER_SIZE;
               reply = httpc P tr c
           in (c_str (take CTRQ_HEADER_BUFFER_SIZE (out_text reply)), tr @ [c], res)))"

text \<open>
  The body of the do-while loop of \<open>get_body\<close>: download a chunk, keeping the result
  in the member \<open>result\<close>, and append the downloaded bytes to the member \<open>body\<close>.
\<close>

definition download_step :: "platform \<Rightarrow> state \<Rightarrow> state" where
  "download_step P s =
     (case s of (tr, res) \<Rightarrow>
        (let c = httpcDownloadData (context' res) CTRQ_DOWNLOAD_BUFFER_SIZE;
             reply = httpc P tr c
         in (tr @ [c], res\<lparr>result := rc reply, body := body res @ out_data reply\<rparr>)))"

text \<open>
  The loop runs its body once and then again for as long as the result is the pending
  code. It has no bound of its own; a run that never ends is \<open>None\<close>.
\<close>

partial_function (option) download_loop :: "platform \<Rightarrow> state \<Rightarrow> state option" where
  "download_loop P s =
     (let s' = download_step P s
      in if result (snd s') = HTTPC_RESULTCODE_DOWNLOADPENDING P
         then download_loop P s'
         else Some s')"

definition get_body :: "platform \<Rightarrow> state \<Rightarrow> (u8 list \<times> state) option" where
  "get_body P s =
     (case s of (tr, res) \<Rightarrow>
        if body_populated res \<or> http_context_closed res then Some (body res, tr, res)
        else
          (case download_loop P (tr, res) of
             None \<Rightarrow> None
           | Some (tr', res') \<Rightarrow>
               (let res'' = res'\<lparr>body_populated := True\<rparr>
                in Some (body res'', tr', res''))))"

definition get_body_string :: "platform \<Rightarrow> state \<Rightarrow> (string \<times> state) option" where
  "get_body_string P s =
     (case s of (tr, res) \<Rightarrow>
        if http_context_closed res \<or> body_string_populated res
        then Some (body_string res, tr, res)
        else
          (case get_body P (tr, res) of
             None \<Rightarrow> None
           | Some (b, tr', res') \<Rightarrow>
               (let res'' = res'\<lparr>body_string := map u8_to_char b\<rparr>
                in Some (body_string res'', tr', res''))))"

definition close_context :: "state \<Rightarrow> state" where
  "close_context s =
     (case s of (tr, res) \<Rightarrow>
        if \<not> http_context_closed res
        then (tr @ [httpcCloseContext (context' res)], res)
        else (tr, res))"

text \<open>The destructor \<open>~response()\<close>.\<close>

definition destroy_response :: "state \<Rightarrow> state" where
  "destroy_response s = close_context s"

section \<open>Preparing, filling and sending a request\<close>

text \<open>
  \<open>headers\<close> is a pointer to a \<open>std::map\<close> and may be null: an optional list of the
  entries in the order the iterator visits them.
\<close>

fun add_headers_loop ::
  "platform \<Rightarrow> httpcContext \<Rightarrow> (string \<times> string) list \<Rightarrow> httpc_call list
    \<Rightarrow> Result \<times> httpc_call list"
where
  "add_headers_loop P c [] tr = (0, tr)"
| "add_headers_loop P c (kv # rest) tr =
     (let call = httpcAddRequestHeaderField c (c_str (fst kv)) (c_str (snd kv));
          r = rc (httpc P tr call)
      in if R_FAILED P r then (r, tr @ [call])
         else add_headers_loop P c rest (tr @ [call]))"

definition add_headers ::
  "platform \<Rightarrow> httpcContext \<Rightarrow> (string \<times> string) list option \<Rightarrow> httpc_call list
    \<Rightarrow> Result \<times> httpc_call list"
where
  "add_headers P c headers tr =
     (case headers of
        None \<Rightarrow> (0, tr)
      | Some hs \<Rightarrow> add_headers_loop P c hs tr)"

text \<open>
  The macro \<open>_CTRQ_FALSE_IF_FAILED(fail, eval)\<close>: evaluate \<open>eval\<close>; when its result is a
  failure, store \<open>fail\<close> and the result in the response and return false from the
  enclosing function. The boolean of the model is False for that early return and
  True when control goes on to the next statement.
\<close>

definition CTRQ_FALSE_IF_FAILED ::
  "platform \<Rightarrow> httpc_failure \<Rightarrow> (state \<Rightarrow> Result \<times> state) \<Rightarrow> state \<Rightarrow> bool \<times> state"
where
  "CTRQ_FALSE_IF_FAILED P fail eval s =
     (case eval s of (r, tr, res) \<Rightarrow>
        if R_FAILED P r then (False, tr, res\<lparr>failure := fail, result := r\<rparr>)
        else (True, tr, res))"

text \<open>Statement sequencing inside a function that may return false early.\<close>

definition and_then ::
  "(state \<Rightarrow> bool \<times> state) \<Rightarrow> (state \<Rightarrow> bool \<times> state) \<Rightarrow> state \<Rightarrow> bool \<times> state"
where
  "and_then f g s = (case f s of (ok, s') \<Rightarrow> if ok then g s' else (False, s'))"

definition return_true :: "state \<Rightarrow> bool \<times> state" where
  "return_true s = (True, s)"

text \<open>A library call on \<open>&res.context\<close> that has no other out-parameter.\<close>

definition call_httpc ::
  "platform \<Rightarrow> (httpcContext \<Rightarrow> httpc_call) \<Rightarrow> state \<Rightarrow> Result \<times> state"
where
  "call_httpc P mk s =
     (case s of (tr, res) \<Rightarrow>
        (let c = mk (context' res) in (rc (httpc P tr c), tr @ [c], res)))"

definition call_httpcOpenContext ::
  "platform \<Rightarrow> HTTPC_RequestMethod \<Rightarrow> string \<Rightarrow> int \<Rightarrow> state \<Rightarrow> Result \<times> state"
where
  "call_httpcOpenContext P method url default_proxy s =
     (case s of (tr, res) \<Rightarrow>
        (let c = httpcOpenContext (context' res) method (c_str url) default_proxy;
             reply = httpc P tr c
         in (rc reply, tr @ [c],
             res\<lparr>context' := (case out_context reply of None \<Rightarrow> context' res | Some x \<Rightarrow> x)\<rparr>)))"

definition call_httpcGetResponseStatusCode :: "platform \<Rightarrow> state \<Rightarrow> Result \<times> state" where
  "call_httpcGetResponseStatusCode P s =
     (case s of (tr, res) \<Rightarrow>
        (let c = httpcGetResponseStatusCode (context' res);
             reply = httpc P tr c
         in (rc reply, tr @ [c],
             res\<lparr>status := (case out_status reply of None \<Rightarrow> status res | Some x \<Rightarrow> x)\<rparr>)))"

definition call_add_headers ::
  "platform \<Rightarrow> (string \<times> string) list option \<Rightarrow> state \<Rightarrow> Result \<times> state"
where
  "call_add_headers P headers s =
     (case s of (tr, res) \<Rightarrow>
        (case add_headers P (context' res) headers tr of (r, tr') \<Rightarrow> (r, tr', res)))"

definition perform_request :: "platform \<Rightarrow> state \<Rightarrow> bool \<times> state" where
  "perform_request P =
     and_then (CTRQ_FALSE_IF_FAILED P BEGIN_REQUEST (call_httpc P httpcBeginRequest))
    (and_then (CTRQ_FALSE_IF_FAILED P GET_RESPONSE_STATUS_CODE
                 (call_httpcGetResponseStatusCode P))
     return_true)"

text \<open>
  \<open>setup_context\<close> takes the request method as its parameter \<open>method\<close>; the call of
  \<open>httpcOpenContext\<close> in its body is written with the constant \<open>HTTPC_METHOD_GET\<close>.
\<close>

definition setup_context ::
  "platform \<Rightarrow> string \<Rightarrow> HTTPC_RequestMethod \<Rightarrow> (string \<times> string) list option \<Rightarrow> int
    \<Rightarrow> bool \<Rightarrow> bool \<Rightarrow> state \<Rightarrow> bool \<times> state"
where
  "setup_context P url method headers default_proxy disable_ssl_verification keep_alive =
     and_then (CTRQ_FALSE_IF_FAILED P OPEN_CONTEXT
                 (call_httpcOpenContext P HTTPC_METHOD_GET url default_proxy))
    (and_then (if disable_ssl_verification
               then CTRQ_FALSE_IF_FAILED P DISABLE_SSL_VERIFY
                      (call_httpc P (\<lambda>c. httpcSetSSLOpt c SSLCOPT_DisableVerify))
               else return_true)
    (and_then (CTRQ_FALSE_IF_FAILED P SET_USER_AGENT
                 (call_httpc P (\<lambda>c. httpcAddRequestHeaderField c ''User-Agent'' CTRQ_USER_AGENT)))
    (and_then (CTRQ_FALSE_IF_FAILED P SET_HEADER (call_add_headers P headers))
    (and_then (CTRQ_FALSE_IF_FAILED P SET_KEEP_ALIVE
                 (call_httpc P (\<lambda>c. httpcSetKeepAlive c
                    (if keep_alive then HTTPC_KEEPALIVE_ENABLED else HTTPC_KEEPALIVE_DISABLED))))
    (and_then (if keep_alive
               then CTRQ_FALSE_IF_FAILED P SET_KEEP_ALIVE_HEADER
                      (call_httpc P (\<lambda>c. httpcAddRequestHeaderField c ''Connection'' ''Keep-Alive''))
               else return_true)
     return_true)))))"

text \<open>
  \<open>add_raw_post_data\<close> and \<open>add_ascii_post_param\<close> assign the call's result to
  \<open>res.result\<close> whether or not it is a failure.
\<close>

definition add_raw_post_data :: "platform \<Rightarrow> u8 list \<Rightarrow> u32 \<Rightarrow> state \<Rightarrow> bool \<times> state" where
  "add_raw_post_data P data len s =
     (case s of (tr, res) \<Rightarrow>
        (let c = httpcAddPostDataRaw (context' res) data len;
             res1 = res\<lparr>result := rc (httpc P tr c)\<rparr>
         in if R_FAILED P (result res1)
            then (False, tr @ [c], res1\<lparr>failure := ADD_RAW_POST_DATA\<rparr>)
            else (True, tr @ [c], res1)))"

definition add_ascii_post_param :: "platform \<Rightarrow> string \<Rightarrow> string \<Rightarrow> state \<Rightarrow> bool \<times> state" where
  "add_ascii_post_param P field val s =
     (case s of (tr, res) \<Rightarrow>
        (let c = httpcAddPostDataAscii (context' res) field val;
             res1 = res\<lparr>result := rc (httpc P tr c)\<rparr>
         in if R_FAILED P (result res1)
            then (False, tr @ [c], res1\<lparr>failure := ADD_ASCII_POST_PARAM\<rparr>)
            else (True, tr @ [c], res1)))"

fun add_ascii_post_params :: "platform \<Rightarrow> (string \<times> string) list \<Rightarrow> state \<Rightarrow> bool \<times> state" where
  "add_ascii_post_params P [] s = (True, s)"
| "add_ascii_post_params P (kv # rest) s =
     (case add_ascii_post_param P (c_str (fst kv)) (c_str (snd kv)) s of (ok, s') \<Rightarrow>
        if \<not> ok then (False, s') else add_ascii_post_params P rest s')"

section \<open>The public request functions\<close>

text \<open>
  Each function starts from the trace \<open>tr\<close> of the library calls made before it and a
  fresh response, and returns the trace and the response it hands to its caller. The
  result of \<open>perform_request\<close> is discarded, as in the source. The overloads of \<open>post\<close>
  and \<open>put\<close> are told apart by a suffix: \<open>_raw\<close> takes the body as a pointer and a
  length (the bytes at the pointer, and the length as the 32-bit value the library
  call receives), \<open>_vector\<close> a byte vector, \<open>_string\<close> a string, \<open>_params\<close> a map of
  form parameters, given as the list of its entries in iteration order.
\<close>

definition get ::
  "platform \<Rightarrow> httpcContext \<Rightarrow> string \<Rightarrow> (string \<times> string) list option \<Rightarrow> int \<Rightarrow> bool \<Rightarrow> bool
    \<Rightarrow> httpc_call list \<Rightarrow> state"
where
  "get P c0 url headers default_proxy disable_ssl_verification keep_alive tr =
     (case setup_context P url HTTPC_METHOD_GET headers default_proxy
             disable_ssl_verification keep_alive (tr, new_response c0) of
        (ok, s1) \<Rightarrow> if \<not> ok then s1 else snd (perform_request P s1))"

definition post_raw ::
  "platform \<Rightarrow> httpcContext \<Rightarrow> string \<Rightarrow> u8 list \<Rightarrow> u32 \<Rightarrow> (string \<times> string) list option \<Rightarrow> int
    \<Rightarrow> bool \<Rightarrow> bool \<Rightarrow> httpc_call list \<Rightarrow> state"
where
  "post_raw P c0 url body_bytes len headers default_proxy disable_ssl_verification keep_alive tr =
     (case setup_context P url HTTPC_METHOD_POST headers default_proxy
             disable_ssl_verification keep_alive (tr, new_response c0) of
        (ok, s1) \<Rightarrow>
          if \<not> ok then s1
          else (case add_raw_post_data P body_bytes len s1 of
                  (ok2, s2) \<Rightarrow> if \<not> ok2 then s2 else snd (perform_request P s2)))"

definition post_vector ::
  "platform \<Rightarrow> httpcContext \<Rightarrow> string \<Rightarrow> u8 list \<Rightarrow> (string \<times> string) list option \<Rightarrow> int
    \<Rightarrow> bool \<Rightarrow> bool \<Rightarrow> httpc_call list \<Rightarrow> state"
where
  "post_vector P c0 url body_bytes headers default_proxy disable_ssl_verification keep_alive tr =
     post_raw P c0 url body_bytes (of_nat (length body_bytes)) headers default_proxy
       disable_ssl_verification keep_alive tr"

definition post_string ::
  "platform \<Rightarrow> httpcContext \<Rightarrow> string \<Rightarrow> string \<Rightarrow> (string \<times> string) list option \<Rightarrow> int
    \<Rightarrow> bool \<Rightarrow> bool \<Rightarrow> httpc_call list \<Rightarrow> state"
where
  "post_string P c0 url body_text headers default_proxy disable_ssl_verification keep_alive tr =
     post_raw P c0 url (map char_to_u8 body_text) (of_nat (length body_text)) headers
       default_proxy disable_ssl_verification keep_alive tr"

definition post_params ::
  "platform \<Rightarrow> httpcContext \<Rightarrow> string \<Rightarrow> (string \<times> string) list
    \<Rightarrow> (string \<times> string) list option \<Rightarrow> int \<Rightarrow> bool \<Rightarrow> bool \<Rightarrow> httpc_call list \<Rightarrow> state"
where
  "post_params P c0 url params headers default_proxy disable_ssl_verification keep_alive tr =
     (case setup_context P url HTTPC_METHOD_POST headers default_proxy
             disable_ssl_verification keep_alive (tr, new_response c0) of
        (ok, s1) \<Rightarrow>
          if \<not> ok then s1
          else (case add_ascii_post_params P params s1 of
                  (ok2, s2) \<Rightarrow> if \<not> ok2 then s2 else snd (perform_request P s2)))"

definition put_raw ::
  "platform \<Rightarrow> httpcContext \<Rightarrow> string \<Rightarrow> u8 list \<Rightarrow> u32 \<Rightarrow> (string \<times> string) list option \<Rightarrow> int
    \<Rightarrow> bool \<Rightarrow> bool \<Rightarrow> httpc_call list \<Rightarrow> state"
where
  "put_raw P c0 url body_bytes len headers default_proxy disable_ssl_verification keep_alive tr =
     (case setup_context P url HTTPC_METHOD_PUT headers default_proxy
             disable_ssl_verification keep_alive (tr, new_response c0) of
        (ok, s1) \<Rightarrow>
          if \<not> ok then s1
          else (case add_raw_post_data P body_bytes len s1 of
                  (ok2, s2) \<Rightarrow> if \<not> ok2 then s2 else snd (perform_request P s2)))"

definition put_vector ::
  "platform \<Rightarrow> httpcContext \<Rightarrow> string \<Rightarrow> u8 list \<Rightarrow> (string \<times> string) list option \<Rightarrow> int
    \<Rightarrow> bool \<Rightarrow> bool \<Rightarrow> httpc_call list \<Rightarrow> state"
where
  "put_vector P c0 url body_bytes headers default_proxy disable_ssl_verification keep_alive tr =
     put_raw P c0 url body_bytes (of_nat (length body_bytes)) headers default_proxy
       disable_ssl_verification keep_alive tr"

definition put_string ::
  "platform \<Rightarrow> httpcContext \<Rightarrow> string \<Rightarrow> string \<Rightarrow> (string \<times> string) list option \<Rightarrow> int
    \<Rightarrow> bool \<Rightarrow> bool \<Rightarrow> httpc_call list \<Rightarrow> state"
where
  "put_string P c0 url body_text headers default_proxy disable_ssl_verification keep_alive tr =
     put_raw P c0 url (map char_to_u8 body_text) (of_nat (length body_text)) headers
       default_proxy disable_ssl_verification keep_alive tr"

definition put_params ::
  "platform \<Rightarrow> httpcContext \<Rightarrow> string \<Rightarrow> (string \<times> string) list
    \<Rightarrow> (string \<times> string) list option \<Rightarrow> int \<Rightarrow> bool \<Rightarrow> bool \<Rightarrow> httpc_call list \<Rightarrow> state"
where
  "put_params P c0 url params headers default_proxy disable_ssl_verification keep_alive tr =
     (case setup_context P url HTTPC_METHOD_PUT headers default_proxy
             disable_ssl_verification keep_alive (tr, new_response c0) of
        (ok, s1) \<Rightarrow>
          if \<not> ok then s1
          else (case add_ascii_post_params P params s1 of
                  (ok2, s2) \<Rightarrow> if \<not> ok2 then s2 else snd (perform_request P s2)))"

definition deleet ::
  "platform \<Rightarrow> httpcContext \<Rightarrow> string \<Rightarrow> (string \<times> string) list option \<Rightarrow> int \<Rightarrow> bool \<Rightarrow> bool
    \<Rightarrow> httpc_call list \<Rightarrow> state"
where
  "deleet P c0 url headers default_proxy disable_ssl_verification keep_alive tr =
     (case setup_context P url HTTPC_METHOD_DELETE headers default_proxy
             disable_ssl_verification keep_alive (tr, new_response c0) of
        (ok, s1) \<Rightarrow> if \<not> ok then s1 else snd (perform_request P s1))"

section \<open>The preparation steps as a list\<close>

text \<open>
  The state of the loop of \<open>get_body\<close> after its body has run \<open>n\<close> times.
\<close>

fun download_chunks :: "platform \<Rightarrow> nat \<Rightarrow> state \<Rightarrow> state" where
  "download_chunks P 0 s = s"
| "download_chunks P (Suc n) s = download_chunks P n (download_step P s)"

text \<open>
  The fixed order of the preparation, written down as data: each step is the name
  recorded when it fails and the library call it makes. \<open>c0\<close> is the context member
  before \<open>httpcOpenContext\<close> and \<open>c1\<close> after it. A caller's header map contributes one
  step per entry, all under the name \<open>SET_HEADER\<close>.
\<close>

definition header_steps ::
  "httpcContext \<Rightarrow> (string \<times> string) list option \<Rightarrow> (httpc_failure \<times> httpc_call) list"
where
  "header_steps c headers =
     (case headers of
        None \<Rightarrow> []
      | Some hs \<Rightarrow>
          map (\<lambda>kv. (SET_HEADER, httpcAddRequestHeaderField c (c_str (fst kv)) (c_str (snd kv)))) hs)"

definition setup_steps ::
  "httpcContext \<Rightarrow> httpcContext \<Rightarrow> string \<Rightarrow> (string \<times> string) list option \<Rightarrow> int \<Rightarrow> bool \<Rightarrow> bool
    \<Rightarrow> (httpc_failure \<times> httpc_call) list"
where
  "setup_steps c0 c1 url headers default_proxy disable_ssl_verification keep_alive =
     [(OPEN_CONTEXT, httpcOpenContext c0 HTTPC_METHOD_GET (c_str url) default_proxy)]
     @ (if disable_ssl_verification
        then [(DISABLE_SSL_VERIFY, httpcSetSSLOpt c1 SSLCOPT_DisableVerify)] else [])
     @ [(SET_USER_AGENT, httpcAddRequestHeaderField c1 ''User-Agent'' CTRQ_USER_AGENT)]
     @ header_steps c1 headers
     @ [(SET_KEEP_ALIVE, httpcSetKeepAlive c1
          (if keep_alive then HTTPC_KEEPALIVE_ENABLED else HTTPC_KEEPALIVE_DISABLED))]
     @ (if keep_alive
        then [(SET_KEEP_ALIVE_HEADER, httpcAddRequestHeaderField c1 ''Connection'' ''Keep-Alive'')]
        else [])"

text \<open>The context member as the call of \<open>httpcOpenContext\<close> in \<open>setup_context\<close> leaves it.\<close>

definition opened_context :: "platform \<Rightarrow> string \<Rightarrow> int \<Rightarrow> state \<Rightarrow> httpcContext" where
  "opened_context P url default_proxy s =
     (case s of (tr, res) \<Rightarrow>
       (case out_context (httpc P tr
               (httpcOpenContext (context' res) HTTPC_METHOD_GET (c_str url) default_proxy)) of
          None \<Rightarrow> context' res
        | Some x \<Rightarrow> x))"

text \<open>
  A driver for such a list: make the calls in order and stop at the first failing one,
  recording its name and result. \<open>step_result P tr steps i\<close> is the result of step \<open>i\<close>
  when the steps before it have been made on top of the trace \<open>tr\<close>.
\<close>

fun run_steps :: "platform \<Rightarrow> (httpc_failure \<times> httpc_call) list \<Rightarrow> state \<Rightarrow> bool \<times> state" where
  "run_steps P [] s = (True, s)"
| "run_steps P (fc # rest) s =
     (case s of (tr, res) \<Rightarrow>
        (let r = rc (httpc P tr (snd fc))
         in if R_FAILED P r then (False, tr @ [snd fc], res\<lparr>failure := fst fc, result := r\<rparr>)
            else run_steps P rest (tr @ [snd fc], res)))"

definition step_result ::
  "platform \<Rightarrow> httpc_call list \<Rightarrow> (httpc_failure \<times> httpc_call) list \<Rightarrow> nat \<Rightarrow> Result"
where
  "step_result P tr steps i = rc (httpc P (tr @ map snd (take i steps)) (snd (steps ! i)))"

definition step_fails ::
  "platform \<Rightarrow> httpc_call list \<Rightarrow> (httpc_failure \<times> httpc_call) list \<Rightarrow> nat \<Rightarrow> bool"
where
  "step_fails P tr steps i = R_FAILED P (step_result P tr steps i)"

section \<open>Concrete platforms\<close>

text \<open>
  The theorems hold for every platform. Their instances below run on the system
  library's own definitions, \<open>R_FAILED(res)\<close> as \<open>res < 0\<close> on the signed result and the
  pending code \<open>0xd840a02b\<close>, with a scripted behaviour of the calls.
\<close>

definition libctru :: "(httpc_call list \<Rightarrow> httpc_call \<Rightarrow> httpc_reply) \<Rightarrow> platform" where
  "libctru h =
     \<lparr> R_FAILED = (\<lambda>r. sint r < 0),
       HTTPC_RESULTCODE_DOWNLOADPENDING = 0xd840a02b,
       httpc = h \<rparr>"

text \<open>Some contents for the context member of a response that has just been declared.\<close>

definition ctx0 :: httpcContext where
  "ctx0 = HttpcContext 0 0"

definition reply_ok :: httpc_reply where
  "reply_ok = \<lparr> rc = 0, out_context = None, out_status = None, out_data = [], out_text = [] \<rparr>"

definition reply_failed :: httpc_reply where
  "reply_failed = reply_ok\<lparr>rc := - 1\<rparr>"

text \<open>Every call succeeds, except the call \<open>bad\<close>, which fails.\<close>

definition fails_on :: "httpc_call \<Rightarrow> httpc_call list \<Rightarrow> httpc_call \<Rightarrow> httpc_reply" where
  "fails_on bad tr c = (if c = bad then reply_failed else reply_ok)"

text \<open>
  A server that answers status 200 with the body \<open>hi\<close>, delivered in two chunks: the
  first download reports one byte and the pending code, the next one byte and
  success. The header \<open>Content-Type\<close> reads \<open>text/plain\<close>.
\<close>

fun is_download :: "httpc_call \<Rightarrow> bool" where
  "is_download (httpcDownloadData c n) = True"
| "is_download other = False"

fun serves_hi :: "httpc_call list \<Rightarrow> httpc_call \<Rightarrow> httpc_reply" where
  "serves_hi tr (httpcOpenContext c m url px) =
     reply_ok\<lparr>out_context := Some (HttpcContext 1 1)\<rparr>"
| "serves_hi tr (httpcGetResponseStatusCode c) = reply_ok\<lparr>out_status := Some 200\<rparr>"
| "serves_hi tr (httpcDownloadData c n) =
     (if filter is_download tr = []
      then reply_ok\<lparr>rc := 0xd840a02b, out_data := [0x68]\<rparr>
      else reply_ok\<lparr>out_data := [0x69]\<rparr>)"
| "serves_hi tr (httpcGetResponseHeader c name n) =
     (if name = ''Content-Type'' then reply_ok\<lparr>out_text := ''text/plain''\<rparr> else reply_ok)"
| "serves_hi tr other = reply_ok"

text \<open>The same server when its second download fails.\<close>

fun breaks_off :: "httpc_call list \<Rightarrow> httpc_call \<Rightarrow> httpc_reply" where
  "breaks_off tr (httpcDownloadData c n) =
     (if filter is_download tr = []
      then reply_ok\<lparr>rc := 0xd840a02b, out_data := [0x68]\<rparr>
      else reply_failed)"
| "breaks_off tr other = serves_hi tr other"

text \<open>A server whose whole body \<open>bs\<close> arrives with the first download.\<close>

definition serves_bytes :: "u8 list \<Rightarrow> httpc_call list \<Rightarrow> httpc_call \<Rightarrow> httpc_reply" where
  "serves_bytes bs tr c = (if is_download c then reply_ok\<lparr>out_data := bs\<rparr> else reply_ok)"

section \<open>The transport's answers to a run of downloads and of form parameters\<close>

text \<open>
  \<open>get_body\<close> makes the same download call again and again, so the trace before its
  \<open>k\<close>-th download (counting from 0) is the trace at entry followed by \<open>k\<close> copies of
  that call. \<open>chunk_reply\<close> is the transport's answer to the \<open>k\<close>-th download,
  \<open>downloaded\<close> the bytes of the first \<open>n\<close> answers in order, and \<open>last_chunk\<close> says that
  answer \<open>n\<close> is the first whose result is not the pending code.
\<close>

definition chunk_reply :: "platform \<Rightarrow> httpc_call list \<Rightarrow> httpcContext \<Rightarrow> nat \<Rightarrow> httpc_reply" where
  "chunk_reply P tr c k =
     httpc P (tr @ replicate k (httpcDownloadData c CTRQ_DOWNLOAD_BUFFER_SIZE))
       (httpcDownloadData c CTRQ_DOWNLOAD_BUFFER_SIZE)"

definition downloaded :: "platform \<Rightarrow> httpc_call list \<Rightarrow> httpcContext \<Rightarrow> nat \<Rightarrow> u8 list" where
  "downloaded P tr c n = concat (map (\<lambda>k. out_data (chunk_reply P tr c k)) [0..<n])"

definition last_chunk :: "platform \<Rightarrow> httpc_call list \<Rightarrow> httpcContext \<Rightarrow> nat \<Rightarrow> bool" where
  "last_chunk P tr c n \<longleftrightarrow>
     rc (chunk_reply P tr c n) \<noteq> HTTPC_RESULTCODE_DOWNLOADPENDING P
   \<and> (\<forall>k<n. rc (chunk_reply P tr c k) = HTTPC_RESULTCODE_DOWNLOADPENDING P)"

text \<open>
  The form parameters as steps: one call of \<open>httpcAddPostDataAscii\<close> per entry, in
  iteration order, each under the name \<open>ADD_ASCII_POST_PARAM\<close>.
\<close>

definition param_steps ::
  "httpcContext \<Rightarrow> (string \<times> string) list \<Rightarrow> (httpc_failure \<times> httpc_call) list"
where
  "param_steps c params =
     map (\<lambda>kv. (ADD_ASCII_POST_PARAM, httpcAddPostDataAscii c (c_str (fst kv)) (c_str (snd kv))))
       params"

section \<open>Kinds of library calls\<close>

text \<open>The two calls that \<open>perform_request\<close> makes.\<close>

fun is_perform_request_call :: "httpc_call \<Rightarrow> bool" where
  "is_perform_request_call (httpcBeginRequest c) = True"
| "is_perform_request_call (httpcGetResponseStatusCode c) = True"
| "is_perform_request_call other = False"

section \<open>The preparation follows its list of steps\<close>

lemma run_steps_context: "run_steps P xs (tr, res) = (ok, tr', res') \<Longrightarrow> context' res' = context' res"
  by (induction xs arbitrary: tr res) (auto simp: Let_def split: if_splits)

lemma run_steps_append:
  "run_steps P (xs @ ys) s = and_then (run_steps P xs) (run_steps P ys) s"
proof (induction xs arbitrary: s)
  case Nil
  show ?case by (simp add: and_then_def)
next
  case (Cons fc xs)
  obtain tr res where s: "s = (tr, res)" by (cases s)
  show ?case
    using Cons.IH [of "(tr @ [snd fc], res)"]
    by (simp add: s and_then_def Let_def)
qed

lemma and_then_run_steps:
  assumes f: "\<And>tr res. context' res = c \<Longrightarrow> f (tr, res) = run_steps P xs (tr, res)"
    and g: "\<And>tr res. context' res = c \<Longrightarrow> g (tr, res) = run_steps P ys (tr, res)"
    and c: "context' res = c"
  shows "and_then f g (tr, res) = run_steps P (xs @ ys) (tr, res)"
proof -
  obtain ok tr' res' where r: "run_steps P xs (tr, res) = (ok, tr', res')"
    by (cases "run_steps P xs (tr, res)") auto
  have c': "context' res' = c"
    using run_steps_context [OF r] c by simp
  show ?thesis
    by (simp add: run_steps_append and_then_def f [OF c] r g [OF c'])
qed

lemma macro_call_httpc:
  "context' res = c \<Longrightarrow>
   CTRQ_FALSE_IF_FAILED P fl (call_httpc P mk) (tr, res) = run_steps P [(fl, mk c)] (tr, res)"
  by (simp add: CTRQ_FALSE_IF_FAILED_def call_httpc_def Let_def)

lemma add_headers_loop_run_steps:
  assumes z: "\<not> R_FAILED P 0"
  shows "CTRQ_FALSE_IF_FAILED P SET_HEADER
     (\<lambda>s. case s of (tr, res) \<Rightarrow> (case add_headers_loop P c hs tr of (r, tr') \<Rightarrow> (r, tr', res)))
     (tr, res)
   = run_steps P (header_steps c (Some hs)) (tr, res)"
proof (induction hs arbitrary: tr)
  case Nil
  show ?case by (simp add: CTRQ_FALSE_IF_FAILED_def header_steps_def z)
next
  case (Cons kv hs)
  show ?case
    using Cons.IH [of "tr @ [httpcAddRequestHeaderField c (c_str (fst kv)) (c_str (snd kv))]"]
    by (simp add: CTRQ_FALSE_IF_FAILED_def header_steps_def Let_def)
qed

lemma macro_add_headers:
  assumes z: "\<not> R_FAILED P 0" and c: "context' res = c"
  shows "CTRQ_FALSE_IF_FAILED P SET_HEADER (call_add_headers P headers) (tr, res)
         = run_steps P (header_steps c headers) (tr, res)"
proof (cases headers)
  case None
  then show ?thesis
    by (simp add: CTRQ_FALSE_IF_FAILED_def call_add_headers_def add_headers_def header_steps_def z)
next
  case (Some hs)
  have "CTRQ_FALSE_IF_FAILED P SET_HEADER (call_add_headers P (Some hs)) (tr, res)
        = CTRQ_FALSE_IF_FAILED P SET_HEADER
            (\<lambda>s. case s of (tr, res) \<Rightarrow> (case add_headers_loop P c hs tr of (r, tr') \<Rightarrow> (r, tr', res)))
            (tr, res)"
    by (simp add: CTRQ_FALSE_IF_FAILED_def call_add_headers_def add_headers_def c)
  then show ?thesis
    by (simp add: Some add_headers_loop_run_steps [OF z])
qed

lemma cond_macro_call_httpc:
  "context' res = c \<Longrightarrow>
   (if b then CTRQ_FALSE_IF_FAILED P fl (call_httpc P mk) else return_true) (tr, res)
   = run_steps P (if b then [(fl, mk c)] else []) (tr, res)"
  by (simp add: macro_call_httpc return_true_def)

lemma setup_tail_run_steps:
  assumes z: "\<not> R_FAILED P 0" and c: "context' res = c1"
  shows
   "and_then (if dsv
               then CTRQ_FALSE_IF_FAILED P DISABLE_SSL_VERIFY
                      (call_httpc P (\<lambda>c. httpcSetSSLOpt c SSLCOPT_DisableVerify))
               else return_true)
    (and_then (CTRQ_FALSE_IF_FAILED P SET_USER_AGENT
                 (call_httpc P (\<lambda>c. httpcAddRequestHeaderField c ''User-Agent'' CTRQ_USER_AGENT)))
    (and_then (CTRQ_FALSE_IF_FAILED P SET_HEADER (call_add_headers P headers))
    (and_then (CTRQ_FALSE_IF_FAILED P SET_KEEP_ALIVE
                 (call_httpc P (\<lambda>c. httpcSetKeepAlive c
                    (if ka then HTTPC_KEEPALIVE_ENABLED else HTTPC_KEEPALIVE_DISABLED))))
    (and_then (if ka
               then CTRQ_FALSE_IF_FAILED P SET_KEEP_ALIVE_HEADER
                      (call_httpc P (\<lambda>c. httpcAddRequestHeaderField c ''Connection'' ''Keep-Alive''))
               else return_true)
     return_true)))) (tr, res)
   = run_steps P
      ((if dsv then [(DISABLE_SSL_VERIFY, httpcSetSSLOpt c1 SSLCOPT_DisableVerify)] else [])
     @ [(SET_USER_AGENT, httpcAddRequestHeaderField c1 ''User-Agent'' CTRQ_USER_AGENT)]
     @ header_steps c1 headers
     @ [(SET_KEEP_ALIVE, httpcSetKeepAlive c1
          (if ka then HTTPC_KEEPALIVE_ENABLED else HTTPC_KEEPALIVE_DISABLED))]
     @ (if ka
        then [(SET_KEEP_ALIVE_HEADER, httpcAddRequestHeaderField c1 ''Connection'' ''Keep-Alive'')]
        else [])
     @ []) (tr, res)"
  using c
  apply (intro and_then_run_steps [where c = c1])
            apply (erule cond_macro_call_httpc)
           apply (erule macro_call_httpc)
          apply (erule macro_add_headers [OF z])
         apply (erule macro_call_httpc)
        apply (erule cond_macro_call_httpc)
       apply (simp add: return_true_def)
      apply assumption+
  done

lemma and_then_False: "f s = (False, s') \<Longrightarrow> and_then f g s = (False, s')"
  by (simp add: and_then_def)

lemma and_then_True: "f s = (True, s') \<Longrightarrow> and_then f g s = g s'"
  by (simp add: and_then_def)

lemma setup_context_run_steps:
  assumes z: "\<not> R_FAILED P 0"
  shows "setup_context P url method headers px dsv ka (tr, res)
         = run_steps P (setup_steps (context' res) (opened_context P url px (tr, res)) url headers px dsv ka)
             (tr, res\<lparr>context' := opened_context P url px (tr, res)\<rparr>)"
proof -
  define c1 where "c1 = opened_context P url px (tr, res)"
  define oc where "oc = httpcOpenContext (context' res) HTTPC_METHOD_GET (c_str url) px"
  define r0 where "r0 = rc (httpc P tr oc)"
  have c: "context' (res\<lparr>context' := c1\<rparr>) = c1" by simp
  have opn: "CTRQ_FALSE_IF_FAILED P OPEN_CONTEXT
               (call_httpcOpenContext P HTTPC_METHOD_GET url px) (tr, res)
             = (if R_FAILED P r0
                then (False, tr @ [oc], res\<lparr>context' := c1, failure := OPEN_CONTEXT, result := r0\<rparr>)
                else (True, tr @ [oc], res\<lparr>context' := c1\<rparr>))"
    by (simp add: CTRQ_FALSE_IF_FAILED_def call_httpcOpenContext_def Let_def c1_def
          opened_context_def r0_def oc_def)
  show ?thesis
  proof (cases "R_FAILED P r0")
    case True
    have "setup_context P url method headers px dsv ka (tr, res)
          = (False, tr @ [oc], res\<lparr>context' := c1, failure := OPEN_CONTEXT, result := r0\<rparr>)"
      unfolding setup_context_def
      by (rule and_then_False) (simp add: opn True)
    also have "\<dots> = run_steps P (setup_steps (context' res) c1 url headers px dsv ka)
                       (tr, res\<lparr>context' := c1\<rparr>)"
      using True by (simp add: setup_steps_def oc_def [symmetric] r0_def [symmetric])
    finally show ?thesis by (simp add: c1_def)
  next
    case False
    have "setup_context P url method headers px dsv ka (tr, res)
          = run_steps P
      ((if dsv then [(DISABLE_SSL_VERIFY, httpcSetSSLOpt c1 SSLCOPT_DisableVerify)] else [])
     @ [(SET_USER_AGENT, httpcAddRequestHeaderField c1 ''User-Agent'' CTRQ_USER_AGENT)]
     @ header_steps c1 headers
     @ [(SET_KEEP_ALIVE, httpcSetKeepAlive c1
          (if ka then HTTPC_KEEPALIVE_ENABLED else HTTPC_KEEPALIVE_DISABLED))]
     @ (if ka
        then [(SET_KEEP_ALIVE_HEADER, httpcAddRequestHeaderField c1 ''Connection'' ''Keep-Alive'')]
        else [])
     @ []) (tr @ [oc], res\<lparr>context' := c1\<rparr>)"
      unfolding setup_context_def
      by (subst and_then_True [where s' = "(tr @ [oc], res\<lparr>context' := c1\<rparr>)"])
         (simp_all only: opn False if_False setup_tail_run_steps [OF z c])
    also have "\<dots> = run_steps P (setup_steps (context' res) c1 url headers px dsv ka)
                       (tr, res\<lparr>context' := c1\<rparr>)"
      using False by (simp add: setup_steps_def oc_def [symmetric] r0_def [symmetric] Let_def)
    finally show ?thesis by (simp add: c1_def)
  qed
qed

lemma run_steps_first_failure:
  assumes "i < length steps" "step_fails P tr steps i" "\<forall>j<i. \<not> step_fails P tr steps j"
  shows "run_steps P steps (tr, res)
         = (False, tr @ map snd (take (Suc i) steps),
            res\<lparr>failure := fst (steps ! i), result := step_result P tr steps i\<rparr>)"
  using assms
proof (induction steps arbitrary: i tr)
  case Nil
  then show ?case by simp
next
  case (Cons fc steps)
  show ?case
  proof (cases i)
    case 0
    with Cons.prems show ?thesis
      by (simp add: step_fails_def step_result_def)
  next
    case (Suc k)
    have ok0: "\<not> R_FAILED P (rc (httpc P tr (snd fc)))"
      using Cons.prems(3) Suc by (auto simp: step_fails_def step_result_def dest: spec [of _ 0])
    have shift: "step_result P tr (fc # steps) (Suc j) = step_result P (tr @ [snd fc]) steps j" for j
      by (simp add: step_result_def)
    have k: "k < length steps" using Cons.prems(1) Suc by simp
    have fk: "step_fails P (tr @ [snd fc]) steps k"
      using Cons.prems(2) Suc by (simp add: step_fails_def shift)
    have nk: "\<forall>j<k. \<not> step_fails P (tr @ [snd fc]) steps j"
    proof (intro allI impI)
      fix j assume "j < k"
      then have "Suc j < i" using Suc by simp
      with Cons.prems(3) have "\<not> step_fails P tr (fc # steps) (Suc j)" by blast
      then show "\<not> step_fails P (tr @ [snd fc]) steps j"
        by (simp add: step_fails_def shift)
    qed
    show ?thesis
      using Cons.IH [OF k fk nk] ok0
      by (simp add: Suc Let_def shift)
  qed
qed

lemma run_steps_all_succeed:
  assumes "\<forall>j<length steps. \<not> step_fails P tr steps j"
  shows "run_steps P steps (tr, res) = (True, tr @ map snd steps, res)"
  using assms
proof (induction steps arbitrary: tr)
  case Nil
  then show ?case by simp
next
  case (Cons fc steps)
  have shift: "step_result P tr (fc # steps) (Suc j) = step_result P (tr @ [snd fc]) steps j" for j
    by (simp add: step_result_def)
  have ok0: "\<not> R_FAILED P (rc (httpc P tr (snd fc)))"
    using Cons.prems by (auto simp: step_fails_def step_result_def dest: spec [of _ 0])
  have "\<forall>j<length steps. \<not> step_fails P (tr @ [snd fc]) steps j"
  proof (intro allI impI)
    fix j assume "j < length steps"
    then have "Suc j < length (fc # steps)" by simp
    with Cons.prems have "\<not> step_fails P tr (fc # steps) (Suc j)" by blast
    then show "\<not> step_fails P (tr @ [snd fc]) steps j"
      by (simp add: step_fails_def shift)
  qed
  from Cons.IH [OF this] ok0 show ?case
    by (simp add: Let_def)
qed

lemma run_steps_prefix:
  "run_steps P steps (tr, res) = (ok, tr', res') \<Longrightarrow>
   \<exists>n\<le>length steps. tr' = tr @ map snd (take n steps) \<and> (ok \<longrightarrow> n = length steps)"
proof (induction steps arbitrary: tr)
  case Nil
  then show ?case by simp
next
  case (Cons fc steps)
  show ?case
  proof (cases "R_FAILED P (rc (httpc P tr (snd fc)))")
    case True
    with Cons.prems have "tr' = tr @ map snd (take 1 (fc # steps))" "\<not> ok"
      by (auto simp: Let_def)
    then show ?thesis by (intro exI [of _ 1]) simp
  next
    case False
    with Cons.prems have "run_steps P steps (tr @ [snd fc], res) = (ok, tr', res')"
      by (simp add: Let_def)
    from Cons.IH [OF this] obtain n where
      n: "n \<le> length steps" "tr' = (tr @ [snd fc]) @ map snd (take n steps)" "ok \<longrightarrow> n = length steps"
      by blast
    then show ?thesis by (intro exI [of _ "Suc n"]) simp
  qed
qed

text \<open>
  C4. Take any run of the preparation on a platform whose result code 0 is a success
  (the code the wrapper itself returns for "no failure"). Let \<open>steps\<close> be the steps
  of the fixed order for the arguments of the run. If step \<open>i\<close> fails and no step before
  it does, then \<open>setup_context\<close> returns false, the name and the result stored in the
  response are those of step \<open>i\<close>, the library calls made are exactly the calls of the
  steps up to and including \<open>i\<close>, and the response, holding the context as the open call
  left it, is what each public request function returns to its caller.
\<close>

theorem setup_context_first_failure:
  assumes z: "\<not> R_FAILED P 0"
    and steps: "steps = setup_steps (context' res) (opened_context P url px (tr, res))
                  url headers px dsv ka"
    and i: "i < length steps"
    and fails: "step_fails P tr steps i"
    and first: "\<forall>j<i. \<not> step_fails P tr steps j"
    and out: "out = (tr @ map snd (take (Suc i) steps),
                     res\<lparr>context' := opened_context P url px (tr, res),
                         failure := fst (steps ! i),
                         result := step_result P tr steps i\<rparr>)"
  shows "setup_context P url method headers px dsv ka (tr, res) = (False, out)
       \<and> (res = new_response c \<longrightarrow>
            (method = HTTPC_METHOD_GET \<longrightarrow> get P c url headers px dsv ka tr = out)
          \<and> (method = HTTPC_METHOD_DELETE \<longrightarrow> deleet P c url headers px dsv ka tr = out)
          \<and> (method = HTTPC_METHOD_POST \<longrightarrow>
                post_raw P c url bs len headers px dsv ka tr = out
              \<and> post_params P c url ps headers px dsv ka tr = out)
          \<and> (method = HTTPC_METHOD_PUT \<longrightarrow>
                put_raw P c url bs len headers px dsv ka tr = out
              \<and> put_params P c url ps headers px dsv ka tr = out))"
proof -
  have run: "setup_context P url method headers px dsv ka (tr, res) = (False, out)"
    unfolding setup_context_run_steps [OF z] steps [symmetric] out
    by (simp add: run_steps_first_failure [OF i fails first])
  show ?thesis
    using run
    by (auto simp: get_def deleet_def post_raw_def post_params_def put_raw_def put_params_def)
qed

theorem setup_context_first_failure_witness:
  "setup_context (libctru (fails_on (httpcAddRequestHeaderField ctx0 ''Accept'' ''text/html'')))
      ''http://example.test/'' HTTPC_METHOD_GET
      (Some [(''Accept'', ''text/html''), (''X-Id'', ''7'')]) 0 True True
      ([], new_response ctx0)
   = (False,
      [httpcOpenContext ctx0 HTTPC_METHOD_GET ''http://example.test/'' 0,
       httpcSetSSLOpt ctx0 SSLCOPT_DisableVerify,
       httpcAddRequestHeaderField ctx0 ''User-Agent'' ''ctrq/0.0.1'',
       httpcAddRequestHeaderField ctx0 ''Accept'' ''text/html''],
      (new_response ctx0)\<lparr>failure := SET_HEADER, result := - 1\<rparr>)
   \<and> get (libctru (fails_on (httpcAddRequestHeaderField ctx0 ''Accept'' ''text/html'')))
      ctx0 ''http://example.test/''
      (Some [(''Accept'', ''text/html''), (''X-Id'', ''7'')]) 0 True True []
   = ([httpcOpenContext ctx0 HTTPC_METHOD_GET ''http://example.test/'' 0,
       httpcSetSSLOpt ctx0 SSLCOPT_DisableVerify,
       httpcAddRequestHeaderField ctx0 ''User-Agent'' ''ctrq/0.0.1'',
       httpcAddRequestHeaderField ctx0 ''Accept'' ''text/html''],
      (new_response ctx0)\<lparr>failure := SET_HEADER, result := - 1\<rparr>)"
proof -
  let ?P = "libctru (fails_on (httpcAddRequestHeaderField ctx0 ''Accept'' ''text/html''))"
  let ?hs = "Some [(''Accept'', ''text/html''), (''X-Id'', ''7'')]"
  let ?steps = "setup_steps ctx0 ctx0 ''http://example.test/'' ?hs 0 True True"
  let ?out = "([httpcOpenContext ctx0 HTTPC_METHOD_GET ''http://example.test/'' 0,
       httpcSetSSLOpt ctx0 SSLCOPT_DisableVerify,
       httpcAddRequestHeaderField ctx0 ''User-Agent'' ''ctrq/0.0.1'',
       httpcAddRequestHeaderField ctx0 ''Accept'' ''text/html''],
      (new_response ctx0)\<lparr>failure := SET_HEADER, result := - 1\<rparr>)"
  have oc: "opened_context ?P ''http://example.test/'' 0 ([], new_response ctx0) = ctx0"
    by (simp add: opened_context_def libctru_def fails_on_def reply_ok_def new_response_def)
  have cx: "context' (new_response ctx0) = ctx0"
    by (simp add: new_response_def)
  have z: "\<not> R_FAILED ?P 0"
    by (simp add: libctru_def)
  have steps: "?steps = setup_steps (context' (new_response ctx0))
       (opened_context ?P ''http://example.test/'' 0 ([], new_response ctx0))
       ''http://example.test/'' ?hs 0 True True"
    by (simp only: oc cx)
  have len: "(3::nat) < length ?steps"
    by (simp add: setup_steps_def header_steps_def)
  have fails: "step_fails ?P [] ?steps 3"
    by (simp add: step_fails_def step_result_def setup_steps_def header_steps_def
          libctru_def fails_on_def reply_ok_def reply_failed_def c_str_def numeral_3_eq_3)
  have first: "\<forall>j<3. \<not> step_fails ?P [] ?steps j"
    by (simp add: step_fails_def step_result_def setup_steps_def header_steps_def
          libctru_def fails_on_def reply_ok_def reply_failed_def c_str_def CTRQ_USER_AGENT_def
          numeral_3_eq_3 less_Suc_eq)
  have sr: "step_result ?P [] ?steps 3 = - 1"
    by (simp add: step_result_def setup_steps_def header_steps_def
          libctru_def fails_on_def reply_ok_def reply_failed_def c_str_def numeral_3_eq_3)
  have tk: "map snd (take (Suc 3) ?steps)
            = [httpcOpenContext ctx0 HTTPC_METHOD_GET ''http://example.test/'' 0,
               httpcSetSSLOpt ctx0 SSLCOPT_DisableVerify,
               httpcAddRequestHeaderField ctx0 ''User-Agent'' ''ctrq/0.0.1'',
               httpcAddRequestHeaderField ctx0 ''Accept'' ''text/html'']"
    by (simp add: setup_steps_def header_steps_def c_str_def CTRQ_USER_AGENT_def numeral_3_eq_3)
  have nm: "fst (?steps ! 3) = SET_HEADER"
    by (simp add: setup_steps_def header_steps_def numeral_3_eq_3)
  have out: "?out = ([] @ map snd (take (Suc 3) ?steps),
                     (new_response ctx0)\<lparr>context' := opened_context ?P ''http://example.test/'' 0 ([], new_response ctx0),
                         failure := fst (?steps ! 3),
                         result := step_result ?P [] ?steps 3\<rparr>)"
    by (simp only: oc sr tk nm append_Nil) (simp add: new_response_def)
  show ?thesis
    using setup_context_first_failure [OF z steps len fails first out,
            of HTTPC_METHOD_GET ctx0]
    by simp
qed

lemma setup_steps_calls:
  "map snd (setup_steps c0 c1 url headers px dsv ka)
   = [httpcOpenContext c0 HTTPC_METHOD_GET (c_str url) px]
     @ (if dsv then [httpcSetSSLOpt c1 SSLCOPT_DisableVerify] else [])
     @ [httpcAddRequestHeaderField c1 ''User-Agent'' CTRQ_USER_AGENT]
     @ map snd (header_steps c1 headers)
     @ [httpcSetKeepAlive c1 (if ka then HTTPC_KEEPALIVE_ENABLED else HTTPC_KEEPALIVE_DISABLED)]
     @ (if ka then [httpcAddRequestHeaderField c1 ''Connection'' ''Keep-Alive''] else [])"
  by (simp add: setup_steps_def)

lemma setup_context_trace:
  assumes z: "\<not> R_FAILED P 0"
    and run: "setup_context P url method headers px dsv ka (tr, res) = (ok, tr', res')"
  shows "\<exists>n. tr' = tr @ take n (map snd (setup_steps (context' res)
                    (opened_context P url px (tr, res)) url headers px dsv ka))
           \<and> (ok \<longrightarrow> tr' = tr @ map snd (setup_steps (context' res)
                    (opened_context P url px (tr, res)) url headers px dsv ka))"
proof -
  let ?steps = "setup_steps (context' res) (opened_context P url px (tr, res)) url headers px dsv ka"
  have "run_steps P ?steps (tr, res\<lparr>context' := opened_context P url px (tr, res)\<rparr>) = (ok, tr', res')"
    using run by (simp add: setup_context_run_steps [OF z])
  from run_steps_prefix [OF this] obtain n where
    "tr' = tr @ map snd (take n ?steps)" "ok \<longrightarrow> n = length ?steps"
    by blast
  then show ?thesis
    by (intro exI [of _ n]) (auto simp: take_map)
qed



section \<open>A failed form parameter stops the request\<close>

lemma add_headers_loop_zero:
  "R_FAILED P 0 \<Longrightarrow> R_FAILED P (fst (add_headers_loop P c hs tr))"
  by (induction hs arbitrary: tr) (simp_all add: Let_def)

lemma macro_add_headers_zero:
  assumes "R_FAILED P 0"
  shows "\<not> fst (CTRQ_FALSE_IF_FAILED P SET_HEADER (call_add_headers P headers) s)"
proof -
  obtain tr res where s: "s = (tr, res)" by (cases s)
  have "R_FAILED P (fst (add_headers P (context' res) headers tr))"
    using assms by (cases headers) (simp_all add: add_headers_def add_headers_loop_zero)
  then show ?thesis
    by (cases "add_headers P (context' res) headers tr")
       (simp add: s CTRQ_FALSE_IF_FAILED_def call_add_headers_def)
qed

lemma and_then_not_first: "(\<And>s. \<not> fst (f s)) \<Longrightarrow> \<not> fst (and_then f g s)"
  by (simp add: and_then_def split: prod.splits) (metis fst_conv)

lemma and_then_not_second: "(\<And>s. \<not> fst (g s)) \<Longrightarrow> \<not> fst (and_then f g s)"
  by (simp add: and_then_def split: prod.splits)

lemma setup_context_success_zero:
  assumes "setup_context P url method headers px dsv ka s = (True, s1)"
  shows "\<not> R_FAILED P 0"
proof
  assume z: "R_FAILED P 0"
  have "\<not> fst (setup_context P url method headers px dsv ka s)"
    unfolding setup_context_def
    by (intro and_then_not_second and_then_not_first macro_add_headers_zero [OF z])
  with assms show False by simp
qed

lemma run_steps_status:
  "run_steps P xs (tr, res) = (ok, tr', res') \<Longrightarrow> status res' = status res"
  by (induction xs arbitrary: tr res) (auto simp: Let_def split: if_splits)

lemma setup_steps_no_perform_request:
  "filter is_perform_request_call (map snd (setup_steps c0 c1 url headers px dsv ka)) = []"
  by (cases headers) (simp_all add: setup_steps_calls header_steps_def filter_empty_conv)

lemma filter_take_empty: "filter p xs = [] \<Longrightarrow> filter p (take n xs) = []"
  by (auto simp: filter_empty_conv dest: in_set_takeD)

lemma setup_context_frame:
  assumes "setup_context P url method headers px dsv ka (tr, res) = (True, tr1, res1)"
  shows "status res1 = status res
       \<and> filter is_perform_request_call tr1 = filter is_perform_request_call tr"
proof -
  have z: "\<not> R_FAILED P 0"
    using setup_context_success_zero [OF assms] .
  have "run_steps P (setup_steps (context' res) (opened_context P url px (tr, res))
                        url headers px dsv ka)
          (tr, res\<lparr>context' := opened_context P url px (tr, res)\<rparr>) = (True, tr1, res1)"
    using assms by (simp add: setup_context_run_steps [OF z])
  from run_steps_status [OF this] have st: "status res1 = status res"
    by simp
  from setup_context_trace [OF z assms] obtain n where
    "tr1 = tr @ take n (map snd (setup_steps (context' res)
                    (opened_context P url px (tr, res)) url headers px dsv ka))"
    by blast
  then have "filter is_perform_request_call tr1 = filter is_perform_request_call tr"
    by (simp add: filter_take_empty [OF setup_steps_no_perform_request])
  with st show ?thesis by simp
qed

lemma add_ascii_post_params_frame:
  "add_ascii_post_params P params (tr, res) = (ok, tr', res') \<Longrightarrow>
     status res' = status res
   \<and> filter is_perform_request_call tr' = filter is_perform_request_call tr
   \<and> (\<not> ok \<longrightarrow> failure res' = ADD_ASCII_POST_PARAM \<and> R_FAILED P (result res'))"
proof (induction params arbitrary: tr res)
  case Nil
  then show ?case by simp
next
  case (Cons kv params)
  let ?c = "httpcAddPostDataAscii (context' res) (c_str (fst kv)) (c_str (snd kv))"
  let ?r = "rc (httpc P tr ?c)"
  show ?case
  proof (cases "R_FAILED P ?r")
    case True
    with Cons.prems show ?thesis
      by (auto simp: add_ascii_post_param_def Let_def)
  next
    case False
    with Cons.prems have
      "add_ascii_post_params P params (tr @ [?c], res\<lparr>result := ?r\<rparr>) = (ok, tr', res')"
      by (simp add: add_ascii_post_param_def Let_def)
    from Cons.IH [OF this] show ?thesis by simp
  qed
qed

lemma add_ascii_post_params_first_failure:
  assumes "i < length params"
    and "step_fails P tr (param_steps (context' res) params) i"
    and "\<forall>j<i. \<not> step_fails P tr (param_steps (context' res) params) j"
  shows "add_ascii_post_params P params (tr, res)
         = (False, tr @ map snd (take (Suc i) (param_steps (context' res) params)),
            res\<lparr>result := step_result P tr (param_steps (context' res) params) i,
                failure := ADD_ASCII_POST_PARAM\<rparr>)"
  using assms
proof (induction params arbitrary: i tr res)
  case Nil
  then show ?case by simp
next
  case (Cons kv params)
  let ?c = "httpcAddPostDataAscii (context' res) (c_str (fst kv)) (c_str (snd kv))"
  have shift: "step_result P tr (param_steps (context' res) (kv # params)) (Suc j)
               = step_result P (tr @ [?c]) (param_steps (context' res) params) j" for j
    by (simp add: step_result_def param_steps_def)
  show ?case
  proof (cases i)
    case 0
    with Cons.prems show ?thesis
      by (simp add: step_fails_def step_result_def param_steps_def add_ascii_post_param_def Let_def)
  next
    case (Suc k)
    let ?res = "res\<lparr>result := rc (httpc P tr ?c)\<rparr>"
    have ok0: "\<not> R_FAILED P (rc (httpc P tr ?c))"
      using Cons.prems(3) Suc
      by (auto simp: step_fails_def step_result_def param_steps_def dest: spec [of _ 0])
    have k: "k < length params" using Cons.prems(1) Suc by simp
    have fk: "step_fails P (tr @ [?c]) (param_steps (context' ?res) params) k"
      using Cons.prems(2) Suc by (simp add: step_fails_def shift)
    have nk: "\<forall>j<k. \<not> step_fails P (tr @ [?c]) (param_steps (context' ?res) params) j"
    proof (intro allI impI)
      fix j assume "j < k"
      then have "Suc j < i" using Suc by simp
      with Cons.prems(3) have "\<not> step_fails P tr (param_steps (context' res) (kv # params)) (Suc j)"
        by blast
      then show "\<not> step_fails P (tr @ [?c]) (param_steps (context' ?res) params) j"
        by (simp add: step_fails_def shift)
    qed
    have first: "add_ascii_post_param P (c_str (fst kv)) (c_str (snd kv)) (tr, res)
                 = (True, tr @ [?c], ?res)"
      using ok0 by (simp add: add_ascii_post_param_def Let_def)
    have tk: "map snd (take (Suc (Suc k)) (param_steps (context' res) (kv # params)))
              = ?c # map snd (take (Suc k) (param_steps (context' res) params))"
      by (simp add: param_steps_def)
    show ?thesis
      using Cons.IH [OF k fk nk]
      by (simp add: first tk Suc shift)
  qed
qed

lemma add_ascii_post_params_all_succeed:
  assumes "\<forall>j<length params. \<not> step_fails P tr (param_steps (context' res) params) j"
  shows "fst (add_ascii_post_params P params (tr, res))"
  using assms
proof (induction params arbitrary: tr res)
  case Nil
  then show ?case by simp
next
  case (Cons kv params)
  let ?c = "httpcAddPostDataAscii (context' res) (c_str (fst kv)) (c_str (snd kv))"
  let ?res = "res\<lparr>result := rc (httpc P tr ?c)\<rparr>"
  have shift: "step_result P tr (param_steps (context' res) (kv # params)) (Suc j)
               = step_result P (tr @ [?c]) (param_steps (context' res) params) j" for j
    by (simp add: step_result_def param_steps_def)
  have ok0: "\<not> R_FAILED P (rc (httpc P tr ?c))"
    using Cons.prems
    by (auto simp: step_fails_def step_result_def param_steps_def dest: spec [of _ 0])
  have "\<forall>j<length params. \<not> step_fails P (tr @ [?c]) (param_steps (context' ?res) params) j"
  proof (intro allI impI)
    fix j assume "j < length params"
    then have "Suc j < length (kv # params)" by simp
    with Cons.prems have "\<not> step_fails P tr (param_steps (context' res) (kv # params)) (Suc j)"
      by blast
    then show "\<not> step_fails P (tr @ [?c]) (param_steps (context' ?res) params) j"
      by (simp add: step_fails_def shift)
  qed
  from Cons.IH [OF this] ok0 show ?case
    by (simp add: add_ascii_post_param_def Let_def)
qed

lemma setup_context_all_succeed:
  assumes z: "\<not> R_FAILED P 0"
    and "\<forall>j<length (setup_steps (context' res) (opened_context P url px (tr, res))
                       url headers px dsv ka).
           \<not> step_fails P tr (setup_steps (context' res) (opened_context P url px (tr, res))
                       url headers px dsv ka) j"
  shows "setup_context P url method headers px dsv ka (tr, res)
         = (True,
            tr @ map snd (setup_steps (context' res) (opened_context P url px (tr, res))
                       url headers px dsv ka),
            res\<lparr>context' := opened_context P url px (tr, res)\<rparr>)"
  unfolding setup_context_run_steps [OF z]
  by (rule run_steps_all_succeed [OF assms(2)])

lemma param_steps_no_perform_request:
  "filter is_perform_request_call (map snd (param_steps c params)) = []"
  by (simp add: param_steps_def filter_empty_conv)

text \<open>
  C5. Take a POST or a PUT with form parameters on a platform whose result code 0 is a
  success, and a transport on which every step of the preparation succeeds and the
  call attaching parameter \<open>i\<close> is the first attaching call to fail. Then the function
  returns the response as the failing call left it: the calls made are those of the
  preparation followed by the attaching calls for the parameters 0 to \<open>i\<close> and no
  other, so no parameter after \<open>i\<close> is attached and neither \<open>httpcBeginRequest\<close> nor
  \<open>httpcGetResponseStatusCode\<close> is called; the response has failed, with the result of
  the failing call, its failure is \<open>ADD_ASCII_POST_PARAM\<close>, and its status is 0.
\<close>

theorem form_param_failure:
  assumes z: "\<not> R_FAILED P 0"
    and c1: "c1 = opened_context P url px (tr, new_response c)"
    and steps: "steps = setup_steps c c1 url headers px dsv ka"
    and prep: "\<forall>j<length steps. \<not> step_fails P tr steps j"
    and i: "i < length params"
    and fails: "step_fails P (tr @ map snd steps) (param_steps c1 params) i"
    and first: "\<forall>j<i. \<not> step_fails P (tr @ map snd steps) (param_steps c1 params) j"
    and out: "out = (tr @ map snd steps @ map snd (take (Suc i) (param_steps c1 params)),
                (new_response c)\<lparr>context' := c1,
                   result := step_result P (tr @ map snd steps) (param_steps c1 params) i,
                   failure := ADD_ASCII_POST_PARAM\<rparr>)"
  shows "post_params P c url params headers px dsv ka tr = out
       \<and> put_params P c url params headers px dsv ka tr = out
       \<and> has_failed P (snd out)
       \<and> failure (snd out) = ADD_ASCII_POST_PARAM
       \<and> status (snd out) = 0
       \<and> filter is_perform_request_call (fst out) = filter is_perform_request_call tr"
proof -
  have cx: "context' (new_response c) = c"
    by (simp add: new_response_def)
  let ?s1 = "(tr @ map snd steps, (new_response c)\<lparr>context' := c1\<rparr>)"
  have su: "setup_context P url m headers px dsv ka (tr, new_response c) = (True, ?s1)" for m
    using setup_context_all_succeed [OF z, of "new_response c" url px tr headers dsv ka m] prep
    unfolding cx c1 [symmetric] steps [symmetric] by simp
  have at: "add_ascii_post_params P params ?s1 = (False, out)"
    using add_ascii_post_params_first_failure
            [of i params P "tr @ map snd steps" "(new_response c)\<lparr>context' := c1\<rparr>"]
          i fails first
    by (simp add: out)
  have nf: "filter is_perform_request_call (map snd steps) = []"
    unfolding steps by (rule setup_steps_no_perform_request)
  have np: "filter is_perform_request_call (map snd (take (Suc i) (param_steps c1 params))) = []"
    unfolding take_map [symmetric]
    by (rule filter_take_empty [OF param_steps_no_perform_request])
  have "post_params P c url params headers px dsv ka tr = out"
    by (simp add: post_params_def su at)
  moreover have "put_params P c url params headers px dsv ka tr = out"
    by (simp add: put_params_def su at)
  moreover have "has_failed P (snd out)"
    using fails by (simp add: out has_failed_def step_fails_def)
  moreover have "failure (snd out) = ADD_ASCII_POST_PARAM" "status (snd out) = 0"
    by (simp_all add: out new_response_def)
  moreover have "filter is_perform_request_call (fst out) = filter is_perform_request_call tr"
    by (simp add: out nf np)
  ultimately show ?thesis by simp
qed

theorem form_param_failure_witness:
  "post_params (libctru (fails_on (httpcAddPostDataAscii ctx0 ''a'' ''1''))) ctx0
     ''http://example.test/'' [(''a'', ''1''), (''b'', ''2'')] None 0 False False []
   = ([httpcOpenContext ctx0 HTTPC_METHOD_GET ''http://example.test/'' 0,
       httpcAddRequestHeaderField ctx0 ''User-Agent'' ''ctrq/0.0.1'',
       httpcSetKeepAlive ctx0 HTTPC_KEEPALIVE_DISABLED,
       httpcAddPostDataAscii ctx0 ''a'' ''1''],
      (new_response ctx0)\<lparr>result := - 1, failure := ADD_ASCII_POST_PARAM\<rparr>)
   \<and> put_params (libctru (fails_on (httpcAddPostDataAscii ctx0 ''b'' ''2''))) ctx0
     ''http://example.test/'' [(''a'', ''1''), (''b'', ''2'')] None 0 False False []
   = ([httpcOpenContext ctx0 HTTPC_METHOD_GET ''http://example.test/'' 0,
       httpcAddRequestHeaderField ctx0 ''User-Agent'' ''ctrq/0.0.1'',
       httpcSetKeepAlive ctx0 HTTPC_KEEPALIVE_DISABLED,
       httpcAddPostDataAscii ctx0 ''a'' ''1'',
       httpcAddPostDataAscii ctx0 ''b'' ''2''],
      (new_response ctx0)\<lparr>result := - 1, failure := ADD_ASCII_POST_PARAM\<rparr>)
   \<and> has_failed (libctru (fails_on (httpcAddPostDataAscii ctx0 ''a'' ''1'')))
        ((new_response ctx0)\<lparr>result := - 1, failure := ADD_ASCII_POST_PARAM\<rparr>)
   \<and> status ((new_response ctx0)\<lparr>result := - 1, failure := ADD_ASCII_POST_PARAM\<rparr>) = 0"
proof -
  let ?Pa = "libctru (fails_on (httpcAddPostDataAscii ctx0 ''a'' ''1''))"
  let ?Pb = "libctru (fails_on (httpcAddPostDataAscii ctx0 ''b'' ''2''))"
  let ?u = "''http://example.test/''"
  let ?ps = "[(''a'', ''1''), (''b'', ''2'')]"
  let ?steps = "setup_steps ctx0 ctx0 ?u None 0 False False"
  let ?calls = "[httpcOpenContext ctx0 HTTPC_METHOD_GET ''http://example.test/'' 0,
       httpcAddRequestHeaderField ctx0 ''User-Agent'' ''ctrq/0.0.1'',
       httpcSetKeepAlive ctx0 HTTPC_KEEPALIVE_DISABLED]"
  let ?res = "(new_response ctx0)\<lparr>result := - 1, failure := ADD_ASCII_POST_PARAM\<rparr>"
  have za: "\<not> R_FAILED ?Pa 0" and zb: "\<not> R_FAILED ?Pb 0"
    by (simp_all add: libctru_def)
  have oa: "ctx0 = opened_context ?Pa ?u 0 ([], new_response ctx0)"
    and ob: "ctx0 = opened_context ?Pb ?u 0 ([], new_response ctx0)"
    by (simp_all add: opened_context_def libctru_def fails_on_def reply_ok_def new_response_def)
  have calls: "map snd ?steps = ?calls"
    by (simp add: setup_steps_def header_steps_def c_str_def CTRQ_USER_AGENT_def)
  have len: "length ?steps = 3"
    by (simp add: setup_steps_def header_steps_def)
  have pa: "\<forall>j<length ?steps. \<not> step_fails ?Pa [] ?steps j"
    and pb: "\<forall>j<length ?steps. \<not> step_fails ?Pb [] ?steps j"
    unfolding len
    by (simp_all add: step_fails_def step_result_def setup_steps_def header_steps_def
          libctru_def fails_on_def reply_ok_def numeral_3_eq_3 less_Suc_eq)
  have ia: "(0::nat) < length ?ps" and ib: "(1::nat) < length ?ps"
    by simp_all
  have fa: "step_fails ?Pa ([] @ map snd ?steps) (param_steps ctx0 ?ps) 0"
    by (simp add: step_fails_def step_result_def param_steps_def c_str_def
          libctru_def fails_on_def reply_ok_def reply_failed_def)
  have fb: "step_fails ?Pb ([] @ map snd ?steps) (param_steps ctx0 ?ps) 1"
    by (simp add: step_fails_def step_result_def param_steps_def c_str_def
          libctru_def fails_on_def reply_ok_def reply_failed_def)
  have na: "\<forall>j<0. \<not> step_fails ?Pa ([] @ map snd ?steps) (param_steps ctx0 ?ps) j"
    by simp
  have nb: "\<forall>j<1. \<not> step_fails ?Pb ([] @ map snd ?steps) (param_steps ctx0 ?ps) j"
    by (simp add: step_fails_def step_result_def param_steps_def c_str_def
          libctru_def fails_on_def reply_ok_def reply_failed_def)
  have outa: "(?calls @ [httpcAddPostDataAscii ctx0 ''a'' ''1''], ?res)
     = ([] @ map snd ?steps @ map snd (take (Suc 0) (param_steps ctx0 ?ps)),
        (new_response ctx0)\<lparr>context' := ctx0,
           result := step_result ?Pa ([] @ map snd ?steps) (param_steps ctx0 ?ps) 0,
           failure := ADD_ASCII_POST_PARAM\<rparr>)"
    unfolding calls
    by (simp add: step_result_def param_steps_def c_str_def libctru_def fails_on_def
          reply_ok_def reply_failed_def new_response_def)
  have outb: "(?calls @ [httpcAddPostDataAscii ctx0 ''a'' ''1'', httpcAddPostDataAscii ctx0 ''b'' ''2''], ?res)
     = ([] @ map snd ?steps @ map snd (take (Suc 1) (param_steps ctx0 ?ps)),
        (new_response ctx0)\<lparr>context' := ctx0,
           result := step_result ?Pb ([] @ map snd ?steps) (param_steps ctx0 ?ps) 1,
           failure := ADD_ASCII_POST_PARAM\<rparr>)"
    unfolding calls
    by (simp add: step_result_def param_steps_def c_str_def libctru_def fails_on_def
          reply_ok_def reply_failed_def new_response_def)
  show ?thesis
    using form_param_failure [OF za oa refl pa ia fa na outa]
          form_param_failure [OF zb ob refl pb ib fb nb outb]
    by simp
qed

section \<open>The response body\<close>

lemma download_step_frame:
  "download_step P (tr, res) = (tr', res') \<Longrightarrow>
     tr' = tr @ [httpcDownloadData (context' res) CTRQ_DOWNLOAD_BUFFER_SIZE]
   \<and> result res' = rc (httpc P tr (httpcDownloadData (context' res) CTRQ_DOWNLOAD_BUFFER_SIZE))
   \<and> body res' = body res
        @ out_data (httpc P tr (httpcDownloadData (context' res) CTRQ_DOWNLOAD_BUFFER_SIZE))
   \<and> context' res' = context' res
   \<and> http_context_closed res' = http_context_closed res
   \<and> body_populated res' = body_populated res
   \<and> body_string res' = body_string res
   \<and> body_string_populated res' = body_string_populated res
   \<and> status res' = status res
   \<and> failure res' = failure res"
  by (auto simp: download_step_def Let_def)

lemma download_chunks_Suc:
  "download_chunks P (Suc n) s = download_step P (download_chunks P n s)"
  by (induction n arbitrary: s) simp_all

lemma download_chunks_frame:
  "download_chunks P n (tr, res) = (tr', res') \<Longrightarrow>
     prefix tr tr'
   \<and> context' res' = context' res
   \<and> http_context_closed res' = http_context_closed res
   \<and> body_populated res' = body_populated res
   \<and> body_string res' = body_string res
   \<and> body_string_populated res' = body_string_populated res
   \<and> status res' = status res
   \<and> failure res' = failure res"
proof (induction n arbitrary: tr' res')
  case 0
  then show ?case by simp
next
  case (Suc n)
  obtain tr1 res1 where c: "download_chunks P n (tr, res) = (tr1, res1)"
    by (cases "download_chunks P n (tr, res)")
  have st: "download_step P (tr1, res1) = (tr', res')"
    using Suc.prems by (simp only: download_chunks_Suc c)
  show ?case
    using Suc.IH [OF c] download_step_frame [OF st] by (auto intro: prefix_order.trans)
qed

lemma download_loop_Some:
  assumes "download_loop P s = Some s'"
  shows "\<exists>n. s' = download_chunks P (Suc n) s
           \<and> result (snd s') \<noteq> HTTPC_RESULTCODE_DOWNLOADPENDING P"
proof -
  let ?Q = "\<lambda>ps y. \<exists>n. y = download_chunks (fst ps) (Suc n) (snd ps)
                     \<and> result (snd y) \<noteq> HTTPC_RESULTCODE_DOWNLOADPENDING (fst ps)"
  have "?Q (P, s) s'"
  proof (rule download_loop.raw_induct [where Pa = ?Q, OF _ assms])
    fix loop :: "platform \<Rightarrow> state \<Rightarrow> state option" and P s y
    assume IH: "\<And>a b y. loop a b = Some y \<Longrightarrow> ?Q (a, b) y"
      and run: "(let s' = download_step P s
                 in if result (snd s') = HTTPC_RESULTCODE_DOWNLOADPENDING P
                    then loop P s' else Some s') = Some y"
    show "?Q (P, s) y"
    proof (cases "result (snd (download_step P s)) = HTTPC_RESULTCODE_DOWNLOADPENDING P")
      case True
      with run have "loop P (download_step P s) = Some y"
        by (simp add: Let_def)
      from IH [OF this] obtain n where
        "y = download_chunks P (Suc n) (download_step P s)"
        "result (snd y) \<noteq> HTTPC_RESULTCODE_DOWNLOADPENDING P"
        by auto
      then show ?thesis by (intro exI [of _ "Suc n"]) simp
    next
      case False
      with run have "y = download_step P s"
        by (simp add: Let_def)
      with False show ?thesis by (intro exI [of _ 0]) simp
    qed
  qed
  then show ?thesis by simp
qed

text \<open>
  The loop returns as soon as a chunk comes back with a result other than the pending
  code.
\<close>

lemma download_loop_returns:
  assumes "result (snd (download_chunks P (Suc n) s)) \<noteq> HTTPC_RESULTCODE_DOWNLOADPENDING P"
    and "\<forall>k<n. result (snd (download_chunks P (Suc k) s)) = HTTPC_RESULTCODE_DOWNLOADPENDING P"
  shows "download_loop P s = Some (download_chunks P (Suc n) s)"
  using assms
proof (induction n arbitrary: s)
  case 0
  then show ?case
    by (subst download_loop.simps) (simp add: Let_def)
next
  case (Suc n)
  have pend: "result (snd (download_step P s)) = HTTPC_RESULTCODE_DOWNLOADPENDING P"
    using Suc.prems(2) by (auto dest: spec [of _ 0])
  have more: "\<forall>k<n. result (snd (download_chunks P (Suc k) (download_step P s)))
                      = HTTPC_RESULTCODE_DOWNLOADPENDING P"
  proof (intro allI impI)
    fix k assume "k < n"
    then have "Suc k < Suc n" by simp
    with Suc.prems(2) show "result (snd (download_chunks P (Suc k) (download_step P s)))
                      = HTTPC_RESULTCODE_DOWNLOADPENDING P"
      by (metis download_chunks.simps(2))
  qed
  have "download_loop P (download_step P s) = Some (download_chunks P (Suc n) (download_step P s))"
    using Suc.prems(1) by (intro Suc.IH more) simp
  then show ?case
    by (subst download_loop.simps) (simp add: Let_def pend)
qed

lemma download_loop_frame:
  assumes "download_loop P (tr, res) = Some (tr', res')"
  shows "tr' \<noteq> []
       \<and> last tr' = httpcDownloadData (context' res) CTRQ_DOWNLOAD_BUFFER_SIZE
       \<and> prefix tr (butlast tr')
       \<and> result res' = rc (httpc P (butlast tr') (last tr'))
       \<and> result res' \<noteq> HTTPC_RESULTCODE_DOWNLOADPENDING P
       \<and> context' res' = context' res
       \<and> http_context_closed res' = http_context_closed res
       \<and> body_populated res' = body_populated res
       \<and> body_string res' = body_string res
       \<and> body_string_populated res' = body_string_populated res
       \<and> status res' = status res
       \<and> failure res' = failure res"
proof -
  from download_loop_Some [OF assms] obtain n where
    n: "(tr', res') = download_chunks P (Suc n) (tr, res)"
    and np: "result res' \<noteq> HTTPC_RESULTCODE_DOWNLOADPENDING P"
    by auto
  obtain tr1 res1 where c: "download_chunks P n (tr, res) = (tr1, res1)"
    by (cases "download_chunks P n (tr, res)")
  have st: "download_step P (tr1, res1) = (tr', res')"
    using n by (simp only: download_chunks_Suc c)
  show ?thesis
    using download_chunks_frame [OF c] download_step_frame [OF st] np by simp
qed

text \<open>
  C6. Once a call of \<open>get_body\<close> has returned the bytes \<open>b\<close>, leaving the state \<open>s1\<close>,
  a call in \<open>s1\<close> returns \<open>b\<close> again and leaves \<open>s1\<close> as it is: the same bytes, and no
  library call added to the trace. As \<open>s1\<close> is unchanged, the same holds for every
  later call, so all the downloads of a response are made by one call of \<open>get_body\<close>.
\<close>

theorem get_body_idempotent:
  assumes "get_body P s = Some (b, s1)"
  shows "get_body P s1 = Some (b, s1)"
proof -
  obtain tr res where s: "s = (tr, res)" by (cases s)
  show ?thesis
  proof (cases "body_populated res \<or> http_context_closed res")
    case True
    with assms show ?thesis
      by (auto simp: s get_body_def)
  next
    case False
    with assms obtain tr' res' where
      "download_loop P (tr, res) = Some (tr', res')"
      "b = body res'" "s1 = (tr', res'\<lparr>body_populated := True\<rparr>)"
      by (auto simp: s get_body_def Let_def split: option.splits)
    then show ?thesis
      by (simp add: get_body_def)
  qed
qed

lemma get_serves_hi:
  "get (libctru serves_hi) ctx0 ''http://example.test/'' None 0 True True []
   = ([httpcOpenContext ctx0 HTTPC_METHOD_GET ''http://example.test/'' 0,
       httpcSetSSLOpt (HttpcContext 1 1) SSLCOPT_DisableVerify,
       httpcAddRequestHeaderField (HttpcContext 1 1) ''User-Agent'' ''ctrq/0.0.1'',
       httpcSetKeepAlive (HttpcContext 1 1) HTTPC_KEEPALIVE_ENABLED,
       httpcAddRequestHeaderField (HttpcContext 1 1) ''Connection'' ''Keep-Alive'',
       httpcBeginRequest (HttpcContext 1 1),
       httpcGetResponseStatusCode (HttpcContext 1 1)],
      (new_response ctx0)\<lparr>status := 200, context' := HttpcContext 1 1\<rparr>)"
  by (simp add: get_def setup_context_def perform_request_def and_then_def
        CTRQ_FALSE_IF_FAILED_def call_httpcOpenContext_def call_httpc_def
        call_httpcGetResponseStatusCode_def call_add_headers_def add_headers_def
        return_true_def libctru_def reply_ok_def Let_def c_str_def CTRQ_USER_AGENT_def
        new_response_def)

lemma get_body_serves_hi:
  assumes "\<not> body_populated res" "\<not> http_context_closed res" "body res = []"
    and "filter is_download tr = []"
  shows "get_body (libctru serves_hi) (tr, res)
         = Some ([0x68, 0x69],
              tr @ [httpcDownloadData (context' res) CTRQ_DOWNLOAD_BUFFER_SIZE,
                    httpcDownloadData (context' res) CTRQ_DOWNLOAD_BUFFER_SIZE],
              res\<lparr>body := [0x68, 0x69], body_populated := True, result := 0\<rparr>)"
proof -
  let ?d = "httpcDownloadData (context' res) CTRQ_DOWNLOAD_BUFFER_SIZE"
  have s1: "download_step (libctru serves_hi) (tr, res)
            = (tr @ [?d], res\<lparr>result := 0xd840a02b, body := [0x68]\<rparr>)"
    using assms by (simp add: download_step_def libctru_def reply_ok_def Let_def)
  have s2: "download_step (libctru serves_hi) (tr @ [?d], res\<lparr>result := 0xd840a02b, body := [0x68]\<rparr>)
            = (tr @ [?d, ?d], res\<lparr>result := 0, body := [0x68, 0x69]\<rparr>)"
    by (simp add: download_step_def libctru_def reply_ok_def Let_def)
  have "download_loop (libctru serves_hi) (tr, res)
        = Some (tr @ [?d, ?d], res\<lparr>result := 0, body := [0x68, 0x69]\<rparr>)"
    apply (subst download_loop.simps)
    apply (simp only: s1 Let_def)
    apply (subst download_loop.simps)
    apply (simp only: s2 Let_def)
    apply (simp add: libctru_def)
    done
  then show ?thesis
    using assms by (simp add: get_body_def)
qed

theorem get_body_idempotent_witness:
  "get_body (libctru serves_hi)
     (get (libctru serves_hi) ctx0 ''http://example.test/'' None 0 True True [])
   = Some ([0x68, 0x69],
       fst (get (libctru serves_hi) ctx0 ''http://example.test/'' None 0 True True [])
         @ [httpcDownloadData (HttpcContext 1 1) CTRQ_DOWNLOAD_BUFFER_SIZE,
            httpcDownloadData (HttpcContext 1 1) CTRQ_DOWNLOAD_BUFFER_SIZE],
       (new_response ctx0)\<lparr>status := 200, context' := HttpcContext 1 1,
          body := [0x68, 0x69], body_populated := True\<rparr>)
   \<and> get_body (libctru serves_hi)
       (fst (get (libctru serves_hi) ctx0 ''http://example.test/'' None 0 True True [])
         @ [httpcDownloadData (HttpcContext 1 1) CTRQ_DOWNLOAD_BUFFER_SIZE,
            httpcDownloadData (HttpcContext 1 1) CTRQ_DOWNLOAD_BUFFER_SIZE],
       (new_response ctx0)\<lparr>status := 200, context' := HttpcContext 1 1,
          body := [0x68, 0x69], body_populated := True\<rparr>)
   = Some ([0x68, 0x69],
       fst (get (libctru serves_hi) ctx0 ''http://example.test/'' None 0 True True [])
         @ [httpcDownloadData (HttpcContext 1 1) CTRQ_DOWNLOAD_BUFFER_SIZE,
            httpcDownloadData (HttpcContext 1 1) CTRQ_DOWNLOAD_BUFFER_SIZE],
       (new_response ctx0)\<lparr>status := 200, context' := HttpcContext 1 1,
          body := [0x68, 0x69], body_populated := True\<rparr>)"
proof -
  let ?g = "get (libctru serves_hi) ctx0 ''http://example.test/'' None 0 True True []"
  let ?s1 = "(fst ?g
         @ [httpcDownloadData (HttpcContext 1 1) CTRQ_DOWNLOAD_BUFFER_SIZE,
            httpcDownloadData (HttpcContext 1 1) CTRQ_DOWNLOAD_BUFFER_SIZE],
       (new_response ctx0)\<lparr>status := 200, context' := HttpcContext 1 1,
          body := [0x68, 0x69], body_populated := True\<rparr>)"
  have first: "get_body (libctru serves_hi) ?g = Some ([0x68, 0x69], ?s1)"
    unfolding get_serves_hi
    by (subst get_body_serves_hi) (simp_all add: new_response_def)
  show ?thesis
    using first get_body_idempotent [OF first] by simp
qed

lemma download_chunks_explicit:
  "download_chunks P (Suc n) (tr, res)
   = (tr @ replicate (Suc n) (httpcDownloadData (context' res) CTRQ_DOWNLOAD_BUFFER_SIZE),
      res\<lparr>result := rc (chunk_reply P tr (context' res) n),
          body := body res @ downloaded P tr (context' res) (Suc n)\<rparr>)"
proof (induction n)
  case 0
  show ?case
    by (simp add: download_step_def chunk_reply_def downloaded_def Let_def)
next
  case (Suc n)
  let ?d = "httpcDownloadData (context' res) CTRQ_DOWNLOAD_BUFFER_SIZE"
  have tr: "(tr @ replicate (Suc n) ?d) @ [?d] = tr @ replicate (Suc (Suc n)) ?d"
    by (simp add: replicate_append_same)
  have dl: "downloaded P tr (context' res) (Suc (Suc n))
            = downloaded P tr (context' res) (Suc n)
              @ out_data (chunk_reply P tr (context' res) (Suc n))"
    by (simp add: downloaded_def)
  have "download_chunks P (Suc (Suc n)) (tr, res)
        = download_step P (download_chunks P (Suc n) (tr, res))"
    by (rule download_chunks_Suc)
  also have "\<dots> = ((tr @ replicate (Suc n) ?d) @ [?d],
      res\<lparr>result := rc (chunk_reply P tr (context' res) (Suc n)),
          body := body res @ downloaded P tr (context' res) (Suc n)
                  @ out_data (chunk_reply P tr (context' res) (Suc n))\<rparr>)"
    unfolding Suc.IH
    by (simp add: download_step_def Let_def chunk_reply_def)
  finally show ?case
    by (simp only: tr dl)
qed

text \<open>
  What \<open>get_body\<close> does on an open response whose body is not populated, for every
  behaviour of the transport: it returns after the first download whose result is not
  the pending code, and it never returns when there is no such download.
\<close>

lemma get_body_returns:
  assumes "\<not> body_populated res" and "\<not> http_context_closed res"
    and "last_chunk P tr (context' res) n"
  shows "get_body P (tr, res)
         = Some (body res @ downloaded P tr (context' res) (Suc n),
             tr @ replicate (Suc n) (httpcDownloadData (context' res) CTRQ_DOWNLOAD_BUFFER_SIZE),
             res\<lparr>result := rc (chunk_reply P tr (context' res) n),
                 body := body res @ downloaded P tr (context' res) (Suc n),
                 body_populated := True\<rparr>)"
proof -
  have a: "result (snd (download_chunks P (Suc n) (tr, res))) \<noteq> HTTPC_RESULTCODE_DOWNLOADPENDING P"
    using assms(3) unfolding download_chunks_explicit by (simp add: last_chunk_def)
  have b: "\<forall>k<n. result (snd (download_chunks P (Suc k) (tr, res)))
                  = HTTPC_RESULTCODE_DOWNLOADPENDING P"
    using assms(3) unfolding download_chunks_explicit by (simp add: last_chunk_def)
  have "download_loop P (tr, res) = Some (download_chunks P (Suc n) (tr, res))"
    using download_loop_returns [OF a b] .
  then show ?thesis
    using assms(1,2) unfolding download_chunks_explicit by (simp add: get_body_def)
qed

lemma get_body_never_returns:
  assumes "\<not> body_populated res" and "\<not> http_context_closed res"
    and "\<forall>k. rc (chunk_reply P tr (context' res) k) = HTTPC_RESULTCODE_DOWNLOADPENDING P"
  shows "get_body P (tr, res) = None"
proof (cases "download_loop P (tr, res)")
  case None
  with assms(1,2) show ?thesis by (simp add: get_body_def)
next
  case (Some s')
  from download_loop_Some [OF Some] obtain n where
    n: "s' = download_chunks P (Suc n) (tr, res)"
    and np: "result (snd s') \<noteq> HTTPC_RESULTCODE_DOWNLOADPENDING P"
    by blast
  have "result (snd s') = rc (chunk_reply P tr (context' res) n)"
    unfolding n download_chunks_explicit by simp
  with np assms(3) show ?thesis by simp
qed

section \<open>The body as text\<close>

lemma u8_to_char_char_to_u8: "u8_to_char (char_to_u8 c) = c"
proof -
  have "unat (of_nat (of_char c :: nat) :: u8) = of_char c"
    by (simp add: unat_of_nat)
  then show ?thesis
    by (simp add: char_to_u8_def u8_to_char_def of_nat_of_char)
qed

lemma char_to_u8_u8_to_char: "char_to_u8 (u8_to_char b) = b"
proof -
  have lt: "unat b < 256"
    using unsigned_less [of b, where 'a = nat] by simp
  have "(of_char (char_of (unat b)) :: u8) = of_nat (of_char (char_of (unat b)) :: nat)"
    by (simp only: of_nat_of_char)
  also have "\<dots> = of_nat (unat b mod 256)"
    by (simp only: of_char_of)
  also have "\<dots> = b"
    using lt by simp
  finally show ?thesis
    by (simp add: char_to_u8_def u8_to_char_def)
qed

lemma get_body_frame:
  assumes "get_body P (tr, res) = Some (b, tr', res')"
  shows "b = body res'
       \<and> (body_populated res' \<or> http_context_closed res')
       \<and> http_context_closed res' = http_context_closed res
       \<and> body_string_populated res' = body_string_populated res
       \<and> body_string res' = body_string res
       \<and> status res' = status res
       \<and> failure res' = failure res
       \<and> context' res' = context' res"
proof (cases "body_populated res \<or> http_context_closed res")
  case True
  with assms show ?thesis by (auto simp: get_body_def)
next
  case False
  with assms obtain tr1 res1 where
    l: "download_loop P (tr, res) = Some (tr1, res1)"
    and r: "b = body res1" "tr' = tr1" "res' = res1\<lparr>body_populated := True\<rparr>"
    by (auto simp: get_body_def Let_def split: option.splits)
  show ?thesis
    using download_loop_frame [OF l] r by simp
qed

text \<open>
  No member function writes \<open>http_context_closed\<close> or \<open>body_string_populated\<close>: both keep
  the value False that the default member initialisers give them.
\<close>

lemma flags_stay:
  "http_context_closed (snd (snd (get_header P h (tr, res)))) = http_context_closed res"
  "body_string_populated (snd (snd (get_header P h (tr, res)))) = body_string_populated res"
  "http_context_closed (snd (close_context (tr, res))) = http_context_closed res"
  "body_string_populated (snd (close_context (tr, res))) = body_string_populated res"
  "get_body P (tr, res) = Some (b, tr', res') \<Longrightarrow>
     http_context_closed res' = http_context_closed res
   \<and> body_string_populated res' = body_string_populated res"
  "get_body_string P (tr, res) = Some (txt, tr', res') \<Longrightarrow>
     http_context_closed res' = http_context_closed res
   \<and> body_string_populated res' = body_string_populated res"
  "\<not> http_context_closed (new_response c) \<and> \<not> body_string_populated (new_response c)"
proof -
  show "http_context_closed (snd (snd (get_header P h (tr, res)))) = http_context_closed res"
    by (simp add: get_header_def Let_def)
  show "body_string_populated (snd (snd (get_header P h (tr, res)))) = body_string_populated res"
    by (simp add: get_header_def Let_def)
  show "http_context_closed (snd (close_context (tr, res))) = http_context_closed res"
    by (simp add: close_context_def)
  show "body_string_populated (snd (close_context (tr, res))) = body_string_populated res"
    by (simp add: close_context_def)
  show g: "http_context_closed res' = http_context_closed res
         \<and> body_string_populated res' = body_string_populated res"
    if "get_body P (tr, res) = Some (b, tr', res')" for b tr' res'
    using get_body_frame [OF that] by simp
  show "http_context_closed res' = http_context_closed res
       \<and> body_string_populated res' = body_string_populated res"
    if a: "get_body_string P (tr, res) = Some (txt, tr', res')"
  proof (cases "http_context_closed res \<or> body_string_populated res")
    case True
    with a show ?thesis by (auto simp: get_body_string_def)
  next
    case False
    with a obtain b1 tr1 res1 where
      "get_body P (tr, res) = Some (b1, tr1, res1)" "res' = res1\<lparr>body_string := map u8_to_char b1\<rparr>"
      by (auto simp: get_body_string_def Let_def split: option.splits)
    with g [of b1 tr1 res1] show ?thesis by simp
  qed
  show "\<not> http_context_closed (new_response c) \<and> \<not> body_string_populated (new_response c)"
    by (simp add: new_response_def)
qed

lemma u8_to_char_bytes:
  "length (map u8_to_char b) = length b \<and> map char_to_u8 (map u8_to_char b) = b"
  by (induction b) (simp_all add: char_to_u8_u8_to_char)

text \<open>
  C7. Take a response in which the two flags that \<open>get_body_string\<close> tests have the
  value every response has, False. Then \<open>get_body_string\<close> returns exactly when
  \<open>get_body\<close> does, and what it returns is the byte buffer that \<open>get_body\<close> returns,
  every byte read as a character. On a populated response that is the stored buffer,
  with no call to the transport; on an unpopulated one it is the bytes of the
  downloads up to the first that is not pending, and no result when every download is
  pending. Reading bytes as characters keeps their number and can be undone, whatever
  the bytes are, a zero byte included; and \<open>get_body\<close> called after \<open>get_body_string\<close>
  returns the bytes of the text.
\<close>

theorem get_body_string_consistent:
  assumes "\<not> http_context_closed res" and "\<not> body_string_populated res"
  shows "get_body_string P (tr, res)
         = map_option
             (\<lambda>r. (map u8_to_char (fst r), fst (snd r),
                   (snd (snd r))\<lparr>body_string := map u8_to_char (fst r)\<rparr>))
             (get_body P (tr, res))
       \<and> (body_populated res \<longrightarrow>
            get_body_string P (tr, res)
            = Some (map u8_to_char (body res), tr,
                    res\<lparr>body_string := map u8_to_char (body res)\<rparr>))
       \<and> (\<not> body_populated res \<and> last_chunk P tr (context' res) n \<longrightarrow>
            get_body_string P (tr, res)
            = Some (map u8_to_char (body res @ downloaded P tr (context' res) (Suc n)),
                tr @ replicate (Suc n) (httpcDownloadData (context' res) CTRQ_DOWNLOAD_BUFFER_SIZE),
                res\<lparr>result := rc (chunk_reply P tr (context' res) n),
                    body := body res @ downloaded P tr (context' res) (Suc n),
                    body_populated := True,
                    body_string :=
                      map u8_to_char (body res @ downloaded P tr (context' res) (Suc n))\<rparr>))
       \<and> (\<not> body_populated res
            \<and> (\<forall>k. rc (chunk_reply P tr (context' res) k) = HTTPC_RESULTCODE_DOWNLOADPENDING P)
            \<longrightarrow> get_body_string P (tr, res) = None)
       \<and> length (map u8_to_char b) = length b
       \<and> map char_to_u8 (map u8_to_char b) = b
       \<and> (\<forall>txt s1. get_body_string P (tr, res) = Some (txt, s1) \<longrightarrow>
             get_body P s1 = Some (map char_to_u8 txt, s1))"
proof -
  have eq: "get_body_string P (tr, res)
         = map_option
             (\<lambda>r. (map u8_to_char (fst r), fst (snd r),
                   (snd (snd r))\<lparr>body_string := map u8_to_char (fst r)\<rparr>))
             (get_body P (tr, res))"
    using assms by (simp add: get_body_string_def Let_def split: option.splits)
  have pop: "get_body_string P (tr, res)
            = Some (map u8_to_char (body res), tr,
                    res\<lparr>body_string := map u8_to_char (body res)\<rparr>)"
    if "body_populated res"
    unfolding eq using that by (simp add: get_body_def)
  have dl: "get_body_string P (tr, res)
            = Some (map u8_to_char (body res @ downloaded P tr (context' res) (Suc n)),
                tr @ replicate (Suc n) (httpcDownloadData (context' res) CTRQ_DOWNLOAD_BUFFER_SIZE),
                res\<lparr>result := rc (chunk_reply P tr (context' res) n),
                    body := body res @ downloaded P tr (context' res) (Suc n),
                    body_populated := True,
                    body_string :=
                      map u8_to_char (body res @ downloaded P tr (context' res) (Suc n))\<rparr>)"
    if "\<not> body_populated res" "last_chunk P tr (context' res) n"
    unfolding eq get_body_returns [OF that(1) assms(1) that(2)] by simp
  have never: "get_body_string P (tr, res) = None"
    if "\<not> body_populated res"
      "\<forall>k. rc (chunk_reply P tr (context' res) k) = HTTPC_RESULTCODE_DOWNLOADPENDING P"
    unfolding eq get_body_never_returns [OF that(1) assms(1) that(2)] by simp
  have later: "get_body P s1 = Some (map char_to_u8 tx, s1)"
    if a: "get_body_string P (tr, res) = Some (tx, s1)" for tx s1
  proof -
    from a obtain b1 tr1 res1 where
      g: "get_body P (tr, res) = Some (b1, tr1, res1)"
      and r: "tx = map u8_to_char b1" "s1 = (tr1, res1\<lparr>body_string := map u8_to_char b1\<rparr>)"
      unfolding eq by auto
    have f: "b1 = body res1" "body_populated res1 \<or> http_context_closed res1"
      using get_body_frame [OF g] by auto
    show ?thesis
      using r f u8_to_char_bytes [of b1] by (auto simp: get_body_def)
  qed
  show ?thesis
    apply (intro conjI impI allI)
          apply (rule eq)
         apply (erule pop)
        apply (erule conjE, erule (1) dl)
       apply (erule conjE, erule (1) never)
      apply (rule u8_to_char_bytes [THEN conjunct1])
     apply (rule u8_to_char_bytes [THEN conjunct2])
    apply (erule later)
    done
qed

theorem get_body_string_consistent_witness:
  "get_body_string (libctru (serves_bytes [0x68, 0x00, 0x69])) ([], new_response ctx0)
   = Some ([CHR 0x68, CHR 0x00, CHR 0x69],
        [httpcDownloadData ctx0 CTRQ_DOWNLOAD_BUFFER_SIZE],
        (new_response ctx0)\<lparr>body := [0x68, 0x00, 0x69], body_populated := True,
           body_string := [CHR 0x68, CHR 0x00, CHR 0x69]\<rparr>)
   \<and> get_body_string (libctru (serves_bytes [0x68, 0x00, 0x69]))
       ([httpcDownloadData ctx0 CTRQ_DOWNLOAD_BUFFER_SIZE],
        (new_response ctx0)\<lparr>body := [0x68, 0x00, 0x69], body_populated := True,
           body_string := [CHR 0x68, CHR 0x00, CHR 0x69]\<rparr>)
   = Some ([CHR 0x68, CHR 0x00, CHR 0x69],
        [httpcDownloadData ctx0 CTRQ_DOWNLOAD_BUFFER_SIZE],
        (new_response ctx0)\<lparr>body := [0x68, 0x00, 0x69], body_populated := True,
           body_string := [CHR 0x68, CHR 0x00, CHR 0x69]\<rparr>)
   \<and> get_body (libctru (serves_bytes [0x68, 0x00, 0x69]))
       ([httpcDownloadData ctx0 CTRQ_DOWNLOAD_BUFFER_SIZE],
        (new_response ctx0)\<lparr>body := [0x68, 0x00, 0x69], body_populated := True,
           body_string := [CHR 0x68, CHR 0x00, CHR 0x69]\<rparr>)
   = Some ([0x68, 0x00, 0x69],
        [httpcDownloadData ctx0 CTRQ_DOWNLOAD_BUFFER_SIZE],
        (new_response ctx0)\<lparr>body := [0x68, 0x00, 0x69], body_populated := True,
           body_string := [CHR 0x68, CHR 0x00, CHR 0x69]\<rparr>)
   \<and> length [CHR 0x68, CHR 0x00, CHR 0x69] = length [0x68, 0x00, 0x69 :: u8]
   \<and> map char_to_u8 [CHR 0x68, CHR 0x00, CHR 0x69] = [0x68, 0x00, 0x69]"
proof -
  let ?P = "libctru (serves_bytes [0x68, 0x00, 0x69])"
  let ?d = "httpcDownloadData ctx0 CTRQ_DOWNLOAD_BUFFER_SIZE"
  let ?txt = "[CHR 0x68, CHR 0x00, CHR 0x69]"
  let ?r0 = "new_response ctx0"
  let ?r1 = "(new_response ctx0)\<lparr>body := [0x68, 0x00, 0x69], body_populated := True,
           body_string := ?txt\<rparr>"
  have cs: "u8_to_char 0x68 = CHR 0x68" "u8_to_char 0x00 = CHR 0x00" "u8_to_char 0x69 = CHR 0x69"
    by code_simp+
  have f0: "\<not> http_context_closed ?r0" "\<not> body_string_populated ?r0" "\<not> body_populated ?r0"
    "context' ?r0 = ctx0" "body ?r0 = []"
    by (simp_all add: new_response_def)
  have f1: "\<not> http_context_closed ?r1" "\<not> body_string_populated ?r1" "body_populated ?r1"
    "body ?r1 = [0x68, 0x00, 0x69]"
    by (simp_all add: new_response_def)
  have r0: "chunk_reply ?P [] ctx0 0 = reply_ok\<lparr>out_data := [0x68, 0x00, 0x69]\<rparr>"
    by (simp add: chunk_reply_def libctru_def serves_bytes_def)
  have lc: "last_chunk ?P [] (context' ?r0) 0"
    unfolding f0(4) by (simp add: last_chunk_def r0) (simp add: libctru_def reply_ok_def)
  have dl: "downloaded ?P [] ctx0 (Suc 0) = [0x68, 0x00, 0x69]"
    by (simp add: downloaded_def r0)
  have "\<not> body_populated ?r0 \<and> last_chunk ?P [] (context' ?r0) 0 \<longrightarrow>
            get_body_string ?P ([], ?r0)
            = Some (map u8_to_char (body ?r0 @ downloaded ?P [] (context' ?r0) (Suc 0)),
                [] @ replicate (Suc 0) (httpcDownloadData (context' ?r0) CTRQ_DOWNLOAD_BUFFER_SIZE),
                ?r0\<lparr>result := rc (chunk_reply ?P [] (context' ?r0) 0),
                    body := body ?r0 @ downloaded ?P [] (context' ?r0) (Suc 0),
                    body_populated := True,
                    body_string :=
                      map u8_to_char (body ?r0 @ downloaded ?P [] (context' ?r0) (Suc 0))\<rparr>)"
    using get_body_string_consistent [OF f0(1) f0(2), of ?P "[]" 0 "[]"]
    by (elim conjE) assumption
  then have "get_body_string ?P ([], ?r0)
            = Some (map u8_to_char (body ?r0 @ downloaded ?P [] (context' ?r0) (Suc 0)),
                [] @ replicate (Suc 0) (httpcDownloadData (context' ?r0) CTRQ_DOWNLOAD_BUFFER_SIZE),
                ?r0\<lparr>result := rc (chunk_reply ?P [] (context' ?r0) 0),
                    body := body ?r0 @ downloaded ?P [] (context' ?r0) (Suc 0),
                    body_populated := True,
                    body_string :=
                      map u8_to_char (body ?r0 @ downloaded ?P [] (context' ?r0) (Suc 0))\<rparr>)"
    using f0(3) lc by (elim impE) (intro conjI, assumption+)
  then have one: "get_body_string ?P ([], ?r0) = Some (?txt, [?d], ?r1)"
    unfolding f0(4) f0(5) dl r0
    by (simp add: cs reply_ok_def new_response_def)
  have "body_populated ?r1 \<longrightarrow>
            get_body_string ?P ([?d], ?r1)
            = Some (map u8_to_char (body ?r1), [?d],
                    ?r1\<lparr>body_string := map u8_to_char (body ?r1)\<rparr>)"
    using get_body_string_consistent [OF f1(1) f1(2), of ?P "[?d]" 0 "[]"]
    by (elim conjE) assumption
  then have "get_body_string ?P ([?d], ?r1)
            = Some (map u8_to_char (body ?r1), [?d],
                    ?r1\<lparr>body_string := map u8_to_char (body ?r1)\<rparr>)"
    using f1(3) by (elim impE) assumption+
  then have two: "get_body_string ?P ([?d], ?r1) = Some (?txt, [?d], ?r1)"
    unfolding f1(4)
    by (simp add: cs new_response_def)
  have "\<forall>txt s1. get_body_string ?P ([], ?r0) = Some (txt, s1) \<longrightarrow>
             get_body ?P s1 = Some (map char_to_u8 txt, s1)"
    using get_body_string_consistent [OF f0(1) f0(2), of ?P "[]" 0 "[]"]
    by (elim conjE) assumption
  then have three: "get_body ?P ([?d], ?r1) = Some (map char_to_u8 ?txt, [?d], ?r1)"
    using one by (elim allE impE) assumption+
  have bytes1: "length (map u8_to_char [0x68, 0x00, 0x69]) = length [0x68, 0x00, 0x69 :: u8]"
    using get_body_string_consistent [OF f0(1) f0(2), of ?P "[]" 0 "[0x68, 0x00, 0x69]"]
    by (elim conjE) assumption
  have bytes2: "map char_to_u8 (map u8_to_char [0x68, 0x00, 0x69]) = [0x68, 0x00, 0x69]"
    using get_body_string_consistent [OF f0(1) f0(2), of ?P "[]" 0 "[0x68, 0x00, 0x69]"]
    by (elim conjE) assumption
  
  show ?thesis
    using one two three bytes1 bytes2 by (simp add: cs)
qed

section \<open>The outcome of a response\<close>

text \<open>
  C10. Take a response whose context is open and whose body is not populated, and a
  transport whose download number \<open>n\<close> is the first to answer with a result other than
  the pending code, a failure or not. Then \<open>get_body\<close> returns: it has made the
  downloads 0 to \<open>n\<close> and no other call, the member \<open>result\<close> holds the result of
  download \<open>n\<close> in place of the outcome it held, the body is the downloaded bytes and is
  marked populated, every other member is as before, and \<open>has_failed\<close> now reports on
  download \<open>n\<close>.
\<close>

theorem get_body_overwrites_result:
  assumes "\<not> body_populated res" and "\<not> http_context_closed res"
    and "last_chunk P tr (context' res) n"
  shows "get_body P (tr, res)
         = Some (body res @ downloaded P tr (context' res) (Suc n),
             tr @ replicate (Suc n) (httpcDownloadData (context' res) CTRQ_DOWNLOAD_BUFFER_SIZE),
             res\<lparr>result := rc (chunk_reply P tr (context' res) n),
                 body := body res @ downloaded P tr (context' res) (Suc n),
                 body_populated := True\<rparr>)
       \<and> (has_failed P
             (res\<lparr>result := rc (chunk_reply P tr (context' res) n),
                  body := body res @ downloaded P tr (context' res) (Suc n),
                  body_populated := True\<rparr>)
           \<longleftrightarrow> R_FAILED P (rc (chunk_reply P tr (context' res) n)))"
  using get_body_returns [OF assms] by (simp add: has_failed_def)

lemma get_breaks_off:
  "get (libctru breaks_off) ctx0 ''http://example.test/'' None 0 True True []
   = ([httpcOpenContext ctx0 HTTPC_METHOD_GET ''http://example.test/'' 0,
       httpcSetSSLOpt (HttpcContext 1 1) SSLCOPT_DisableVerify,
       httpcAddRequestHeaderField (HttpcContext 1 1) ''User-Agent'' ''ctrq/0.0.1'',
       httpcSetKeepAlive (HttpcContext 1 1) HTTPC_KEEPALIVE_ENABLED,
       httpcAddRequestHeaderField (HttpcContext 1 1) ''Connection'' ''Keep-Alive'',
       httpcBeginRequest (HttpcContext 1 1),
       httpcGetResponseStatusCode (HttpcContext 1 1)],
      (new_response ctx0)\<lparr>status := 200, context' := HttpcContext 1 1\<rparr>)"
  by (simp add: get_def setup_context_def perform_request_def and_then_def
        CTRQ_FALSE_IF_FAILED_def call_httpcOpenContext_def call_httpc_def
        call_httpcGetResponseStatusCode_def call_add_headers_def add_headers_def
        return_true_def libctru_def reply_ok_def Let_def c_str_def CTRQ_USER_AGENT_def
        new_response_def)

theorem get_body_overwrites_result_witness:
  "\<not> has_failed (libctru breaks_off)
       (snd (get (libctru breaks_off) ctx0 ''http://example.test/'' None 0 True True []))
   \<and> get_body (libctru breaks_off)
       (get (libctru breaks_off) ctx0 ''http://example.test/'' None 0 True True [])
     = Some ([0x68],
        fst (get (libctru breaks_off) ctx0 ''http://example.test/'' None 0 True True [])
          @ [httpcDownloadData (HttpcContext 1 1) CTRQ_DOWNLOAD_BUFFER_SIZE,
             httpcDownloadData (HttpcContext 1 1) CTRQ_DOWNLOAD_BUFFER_SIZE],
        (new_response ctx0)\<lparr>status := 200, context' := HttpcContext 1 1,
           result := - 1, body := [0x68], body_populated := True\<rparr>)
   \<and> has_failed (libctru breaks_off)
        ((new_response ctx0)\<lparr>status := 200, context' := HttpcContext 1 1,
           result := - 1, body := [0x68], body_populated := True\<rparr>)"
proof -
  let ?P = "libctru breaks_off"
  let ?g = "get ?P ctx0 ''http://example.test/'' None 0 True True []"
  let ?tr = "fst ?g"
  let ?r = "(new_response ctx0)\<lparr>status := 200, context' := HttpcContext 1 1\<rparr>"
  let ?c = "HttpcContext 1 1"
  have g: "?g = (?tr, ?r)"
    by (simp add: get_breaks_off)
  have nd: "filter is_download ?tr = []"
    by (simp add: get_breaks_off)
  have cx: "context' ?r = ?c" "body ?r = []" "\<not> body_populated ?r" "\<not> http_context_closed ?r"
    by (simp_all add: new_response_def)
  have r0: "chunk_reply ?P ?tr ?c 0 = reply_ok\<lparr>rc := 0xd840a02b, out_data := [0x68]\<rparr>"
    using nd by (simp add: chunk_reply_def libctru_def)
  have r1: "chunk_reply ?P ?tr ?c (Suc 0) = reply_failed"
    by (simp add: chunk_reply_def libctru_def)
  have pend: "HTTPC_RESULTCODE_DOWNLOADPENDING ?P = 0xd840a02b"
    and rf: "R_FAILED ?P (- 1)"
    by (simp_all add: libctru_def)
  have lc: "last_chunk ?P ?tr (context' ?r) (Suc 0)"
    unfolding cx(1) by (simp add: last_chunk_def r0 r1 pend reply_failed_def reply_ok_def)
  have dl: "downloaded ?P ?tr ?c (Suc (Suc 0)) = [0x68]"
    by (simp add: downloaded_def r0 r1 reply_failed_def reply_ok_def)
  have before: "\<not> has_failed ?P (snd ?g)"
    unfolding get_breaks_off
    by (simp add: has_failed_def libctru_def new_response_def)
  have after: "get_body ?P ?g
     = Some ([0x68],
        ?tr @ [httpcDownloadData ?c CTRQ_DOWNLOAD_BUFFER_SIZE,
               httpcDownloadData ?c CTRQ_DOWNLOAD_BUFFER_SIZE],
        (new_response ctx0)\<lparr>status := 200, context' := HttpcContext 1 1,
           result := - 1, body := [0x68], body_populated := True\<rparr>)
     \<and> has_failed ?P
        ((new_response ctx0)\<lparr>status := 200, context' := HttpcContext 1 1,
           result := - 1, body := [0x68], body_populated := True\<rparr>)"
    using get_body_overwrites_result [OF cx(3) cx(4) lc]
    unfolding cx(1) dl r1 cx(2)
    by (subst g) (simp add: reply_failed_def reply_ok_def rf)
  show ?thesis
    using before after by simp
qed

text \<open>
  C9. \<open>has_failed\<close> is the platform's failure test applied to the stored result, and
  nothing else: whatever value the status member has, 404 included, the answer is
  the same.
\<close>

theorem has_failed_result_only:
  "(has_failed P res \<longleftrightarrow> R_FAILED P (result res))
   \<and> (has_failed P (res\<lparr>status := st\<rparr>) \<longleftrightarrow> R_FAILED P (result res))
   \<and> (has_failed P (res\<lparr>status := 404\<rparr>) \<longleftrightarrow> has_failed P (res\<lparr>status := 200\<rparr>))"
  by (simp add: has_failed_def)

lemma has_failed_404_example:
  "\<not> has_failed (libctru serves_hi) ((new_response ctx0)\<lparr>status := 404\<rparr>)"
  by (simp add: has_failed_def libctru_def new_response_def)

section \<open>Where the code departs from its description\<close>

text \<open>
  C1. The request functions pass their method to \<open>setup_context\<close>, which opens the
  context with \<open>HTTPC_METHOD_GET\<close> all the same. On the server of the scenario, a POST,
  a PUT and a DELETE each open a GET context.
\<close>

theorem post_put_deleet_open_get_context:
  "post_raw (libctru serves_hi) ctx0 ''http://example.test/'' [0x61, 0x62, 0x63, 0x64] 4
      None 0 True True []
   = ([httpcOpenContext ctx0 HTTPC_METHOD_GET ''http://example.test/'' 0,
       httpcSetSSLOpt (HttpcContext 1 1) SSLCOPT_DisableVerify,
       httpcAddRequestHeaderField (HttpcContext 1 1) ''User-Agent'' ''ctrq/0.0.1'',
       httpcSetKeepAlive (HttpcContext 1 1) HTTPC_KEEPALIVE_ENABLED,
       httpcAddRequestHeaderField (HttpcContext 1 1) ''Connection'' ''Keep-Alive'',
       httpcAddPostDataRaw (HttpcContext 1 1) [0x61, 0x62, 0x63, 0x64] 4,
       httpcBeginRequest (HttpcContext 1 1),
       httpcGetResponseStatusCode (HttpcContext 1 1)],
      (new_response ctx0)\<lparr>status := 200, context' := HttpcContext 1 1\<rparr>)
   \<and> put_raw (libctru serves_hi) ctx0 ''http://example.test/'' [0x61, 0x62, 0x63, 0x64] 4
      None 0 True True []
   = ([httpcOpenContext ctx0 HTTPC_METHOD_GET ''http://example.test/'' 0,
       httpcSetSSLOpt (HttpcContext 1 1) SSLCOPT_DisableVerify,
       httpcAddRequestHeaderField (HttpcContext 1 1) ''User-Agent'' ''ctrq/0.0.1'',
       httpcSetKeepAlive (HttpcContext 1 1) HTTPC_KEEPALIVE_ENABLED,
       httpcAddRequestHeaderField (HttpcContext 1 1) ''Connection'' ''Keep-Alive'',
       httpcAddPostDataRaw (HttpcContext 1 1) [0x61, 0x62, 0x63, 0x64] 4,
       httpcBeginRequest (HttpcContext 1 1),
       httpcGetResponseStatusCode (HttpcContext 1 1)],
      (new_response ctx0)\<lparr>status := 200, context' := HttpcContext 1 1\<rparr>)
   \<and> deleet (libctru serves_hi) ctx0 ''http://example.test/'' None 0 True True []
   = ([httpcOpenContext ctx0 HTTPC_METHOD_GET ''http://example.test/'' 0,
       httpcSetSSLOpt (HttpcContext 1 1) SSLCOPT_DisableVerify,
       httpcAddRequestHeaderField (HttpcContext 1 1) ''User-Agent'' ''ctrq/0.0.1'',
       httpcSetKeepAlive (HttpcContext 1 1) HTTPC_KEEPALIVE_ENABLED,
       httpcAddRequestHeaderField (HttpcContext 1 1) ''Connection'' ''Keep-Alive'',
       httpcBeginRequest (HttpcContext 1 1),
       httpcGetResponseStatusCode (HttpcContext 1 1)],
      (new_response ctx0)\<lparr>status := 200, context' := HttpcContext 1 1\<rparr>)"
proof -
  let ?P = "libctru serves_hi"
  let ?tr = "[httpcOpenContext ctx0 HTTPC_METHOD_GET ''http://example.test/'' 0,
       httpcSetSSLOpt (HttpcContext 1 1) SSLCOPT_DisableVerify,
       httpcAddRequestHeaderField (HttpcContext 1 1) ''User-Agent'' ''ctrq/0.0.1'',
       httpcSetKeepAlive (HttpcContext 1 1) HTTPC_KEEPALIVE_ENABLED,
       httpcAddRequestHeaderField (HttpcContext 1 1) ''Connection'' ''Keep-Alive'']"
  let ?r = "(new_response ctx0)\<lparr>context' := HttpcContext 1 1\<rparr>"
  have prep: "setup_context ?P ''http://example.test/'' m None 0 True True ([], new_response ctx0)
              = (True, ?tr, ?r)" for m
    by (simp add: setup_context_def and_then_def CTRQ_FALSE_IF_FAILED_def
          call_httpcOpenContext_def call_httpc_def call_add_headers_def add_headers_def
          return_true_def libctru_def reply_ok_def Let_def c_str_def CTRQ_USER_AGENT_def
          new_response_def)
  have raw: "add_raw_post_data ?P [0x61, 0x62, 0x63, 0x64] 4 (?tr, ?r)
             = (True, ?tr @ [httpcAddPostDataRaw (HttpcContext 1 1) [0x61, 0x62, 0x63, 0x64] 4], ?r)"
    by (simp add: add_raw_post_data_def libctru_def reply_ok_def Let_def new_response_def)
  have perform: "perform_request ?P (t, ?r)
             = (True, t @ [httpcBeginRequest (HttpcContext 1 1),
                           httpcGetResponseStatusCode (HttpcContext 1 1)],
                (new_response ctx0)\<lparr>status := 200, context' := HttpcContext 1 1\<rparr>)" for t
    by (simp add: perform_request_def and_then_def CTRQ_FALSE_IF_FAILED_def call_httpc_def
          call_httpcGetResponseStatusCode_def return_true_def libctru_def reply_ok_def Let_def
          new_response_def)
  show ?thesis
    by (simp add: post_raw_def put_raw_def deleet_def prep raw perform)
qed

lemma close_context_twice:
  "\<not> http_context_closed res \<Longrightarrow>
   close_context (close_context (tr, res))
   = (tr @ [httpcCloseContext (context' res), httpcCloseContext (context' res)], res)"
  by (simp add: close_context_def)

text \<open>
  C2. \<open>close_context\<close> tests the member \<open>http_context_closed\<close> and never sets it, so
  every call closes the context again. A response obtained from \<open>get\<close>, closed by its
  owner and then destroyed has had \<open>httpcCloseContext\<close> called on its context twice.
\<close>

theorem context_closed_twice:
  "destroy_response (close_context
     (get (libctru serves_hi) ctx0 ''http://example.test/'' None 0 True True []))
   = ([httpcOpenContext ctx0 HTTPC_METHOD_GET ''http://example.test/'' 0,
       httpcSetSSLOpt (HttpcContext 1 1) SSLCOPT_DisableVerify,
       httpcAddRequestHeaderField (HttpcContext 1 1) ''User-Agent'' ''ctrq/0.0.1'',
       httpcSetKeepAlive (HttpcContext 1 1) HTTPC_KEEPALIVE_ENABLED,
       httpcAddRequestHeaderField (HttpcContext 1 1) ''Connection'' ''Keep-Alive'',
       httpcBeginRequest (HttpcContext 1 1),
       httpcGetResponseStatusCode (HttpcContext 1 1),
       httpcCloseContext (HttpcContext 1 1),
       httpcCloseContext (HttpcContext 1 1)],
      (new_response ctx0)\<lparr>status := 200, context' := HttpcContext 1 1\<rparr>)"
  unfolding get_serves_hi destroy_response_def
  by (subst close_context_twice) (simp_all add: new_response_def)

text \<open>
  C3. For the same reason the accessors still reach the library after
  \<open>close_context\<close>: on the server of the scenario, \<open>get_header\<close> called after
  \<open>close_context\<close> asks the library for the header and returns its value, and
  \<open>get_body\<close> downloads the body.
\<close>

theorem accessors_after_close_context:
  "get_header (libctru serves_hi) ''Content-Type''
     (close_context (get (libctru serves_hi) ctx0 ''http://example.test/'' None 0 True True []))
   = (''text/plain'',
      [httpcOpenContext ctx0 HTTPC_METHOD_GET ''http://example.test/'' 0,
       httpcSetSSLOpt (HttpcContext 1 1) SSLCOPT_DisableVerify,
       httpcAddRequestHeaderField (HttpcContext 1 1) ''User-Agent'' ''ctrq/0.0.1'',
       httpcSetKeepAlive (HttpcContext 1 1) HTTPC_KEEPALIVE_ENABLED,
       httpcAddRequestHeaderField (HttpcContext 1 1) ''Connection'' ''Keep-Alive'',
       httpcBeginRequest (HttpcContext 1 1),
       httpcGetResponseStatusCode (HttpcContext 1 1),
       httpcCloseContext (HttpcContext 1 1),
       httpcGetResponseHeader (HttpcContext 1 1) ''Content-Type'' CTRQ_HEADER_BUFFER_SIZE],
      (new_response ctx0)\<lparr>status := 200, context' := HttpcContext 1 1\<rparr>)
   \<and> map_option fst (get_body (libctru serves_hi)
     (close_context (get (libctru serves_hi) ctx0 ''http://example.test/'' None 0 True True [])))
   = Some [0x68, 0x69]
   \<and> map_option (\<lambda>r. fst (snd r)) (get_body (libctru serves_hi)
     (close_context (get (libctru serves_hi) ctx0 ''http://example.test/'' None 0 True True [])))
   = Some
      [httpcOpenContext ctx0 HTTPC_METHOD_GET ''http://example.test/'' 0,
       httpcSetSSLOpt (HttpcContext 1 1) SSLCOPT_DisableVerify,
       httpcAddRequestHeaderField (HttpcContext 1 1) ''User-Agent'' ''ctrq/0.0.1'',
       httpcSetKeepAlive (HttpcContext 1 1) HTTPC_KEEPALIVE_ENABLED,
       httpcAddRequestHeaderField (HttpcContext 1 1) ''Connection'' ''Keep-Alive'',
       httpcBeginRequest (HttpcContext 1 1),
       httpcGetResponseStatusCode (HttpcContext 1 1),
       httpcCloseContext (HttpcContext 1 1),
       httpcDownloadData (HttpcContext 1 1) CTRQ_DOWNLOAD_BUFFER_SIZE,
       httpcDownloadData (HttpcContext 1 1) CTRQ_DOWNLOAD_BUFFER_SIZE]"
proof -
  let ?g = "get (libctru serves_hi) ctx0 ''http://example.test/'' None 0 True True []"
  let ?r = "(new_response ctx0)\<lparr>status := 200, context' := HttpcContext 1 1\<rparr>"
  have cl: "close_context ?g = (fst ?g @ [httpcCloseContext (HttpcContext 1 1)], ?r)"
    unfolding get_serves_hi by (simp add: close_context_def new_response_def)
  have hd: "get_header (libctru serves_hi) ''Content-Type'' (close_context ?g)
            = (''text/plain'',
               fst ?g @ [httpcCloseContext (HttpcContext 1 1),
                 httpcGetResponseHeader (HttpcContext 1 1) ''Content-Type'' CTRQ_HEADER_BUFFER_SIZE],
               ?r)"
    unfolding cl
    by (simp add: get_header_def libctru_def reply_ok_def Let_def c_str_def
          CTRQ_HEADER_BUFFER_SIZE_def new_response_def)
  have bd: "get_body (libctru serves_hi) (close_context ?g)
            = Some ([0x68, 0x69],
                (fst ?g @ [httpcCloseContext (HttpcContext 1 1)])
                  @ [httpcDownloadData (context' ?r) CTRQ_DOWNLOAD_BUFFER_SIZE,
                     httpcDownloadData (context' ?r) CTRQ_DOWNLOAD_BUFFER_SIZE],
                ?r\<lparr>body := [0x68, 0x69], body_populated := True, result := 0\<rparr>)"
    unfolding cl
    by (rule get_body_serves_hi) (simp_all add: new_response_def get_serves_hi)
  show ?thesis
    using hd bd by (simp add: get_serves_hi new_response_def)
qed

end
